theory Spec2Isabelle
  imports Main "HOL-Library.Word" "HOL-Library.AList"
begin

unbundle bit_operations_syntax

section \<open>The process: heap, descriptor table, errno, standard output\<close>

text \<open>
  The program is a JNI binding (\<^verbatim>\<open>org_jetlang_epoll_EPoll.cpp\<close>) over the Linux calls
  \<^verbatim>\<open>epoll_create1\<close>, \<^verbatim>\<open>epoll_ctl\<close>, \<^verbatim>\<open>epoll_wait\<close>, \<^verbatim>\<open>eventfd\<close>,
  \<^verbatim>\<open>recvmmsg\<close>, \<^verbatim>\<open>read\<close>, \<^verbatim>\<open>write\<close>, \<^verbatim>\<open>close\<close>, \<^verbatim>\<open>malloc\<close> and
  \<^verbatim>\<open>free\<close>. Every function of the source is embedded as a function on an explicit
  process state (record \<open>world\<close>): the C heap as an association list from block
  addresses to typed blocks, and the descriptor table as an association list from
  descriptor numbers to open files. Pointers are block addresses (\<open>0\<close> is \<^verbatim>\<open>NULL\<close>); the
  \<^verbatim>\<open>jlong\<close> handle the Java side holds is the address of the state block. \<^verbatim>\<open>jint\<close>
  parameters are 32-bit words, read signed with \<open>sint\<close>; C \<^verbatim>\<open>int\<close> values that come
  from the kernel (descriptors, counts, \<open>-1\<close>) are HOL integers.
\<close>

type_synonym addr = nat
type_synonym jint = "32 word"
type_synonym byte = "8 word"

datatype errno = EPERM | ENOENT | EBADF | EAGAIN | ENOMEM | EFAULT | EEXIST | EINVAL | EMFILE | ENOTSOCK

text \<open>
  What a C function of the source can do besides returning: fault on a pointer it
  dereferences (undefined behaviour in C, a crash of the JVM in practice), or never
  return because the kernel call it makes blocks and nothing else runs.
\<close>

datatype fault = NullPointer | InvalidPointer | OutOfBounds | InvalidFree

datatype 'a outcome = Done 'a | Fault fault | Blocks

fun obind :: "'a outcome \<Rightarrow> ('a \<Rightarrow> 'b outcome) \<Rightarrow> 'b outcome" where
  "obind (Done x) f = f x"
| "obind (Fault e) f = Fault e"
| "obind Blocks f = Blocks"

text \<open>\<^verbatim>\<open>struct epoll_event\<close>: the mask and the \<^verbatim>\<open>data.u32\<close> member, the only one used.\<close>

record epoll_event =
  ev_events :: "32 word"
  ev_data_u32 :: "32 word"

text \<open>\<^verbatim>\<open>struct epoll_state\<close> of the source, field for field.\<close>

record epoll_state =
  fd :: int
  efd :: int
  events :: addr
  max_events :: int
  efd_event :: epoll_event
  udp_rcv_len :: int
  udp_rcv :: addr

record iovec =
  iov_base :: addr
  iov_len :: "64 word"

text \<open>
  \<^verbatim>\<open>struct mmsghdr\<close>: of \<^verbatim>\<open>msg_hdr\<close> the members the source sets (\<^verbatim>\<open>msg_iov\<close>,
  \<^verbatim>\<open>msg_iovlen\<close>; the others stay zero after the \<^verbatim>\<open>memset\<close>), and \<^verbatim>\<open>msg_len\<close>.
\<close>

record mmsghdr =
  msg_iov :: addr
  msg_iovlen :: "64 word"
  msg_len :: "32 word"

text \<open>
  A heap block, seen at the type the source casts it to. \<open>Uninit\<close> is a block nothing
  has been stored in yet; a cell \<open>None\<close> of an event array or of a buffer is a cell
  whose content is indeterminate (never written since \<^verbatim>\<open>malloc\<close>).
\<close>

datatype obj =
    Uninit
  | StateObj epoll_state
  | EventObj epoll_event
  | EventArr "epoll_event option list"
  | MsgArr "mmsghdr list"
  | IoVecObj iovec
  | Buf "byte option list"

text \<open>
  An open file: an epoll instance with its interest list (descriptor, registered
  event) and its ready list (the descriptors queued for the next \<^verbatim>\<open>epoll_wait\<close>,
  head first); an eventfd with its non-blocking flag and 64-bit counter; a UDP
  socket with its non-blocking flag, pending error and queue of pending datagrams;
  any file that cannot be polled.
\<close>

datatype open_file =
    EpollFile "(int \<times> epoll_event) list" "int list"
  | EventFd bool "64 word"
  | UdpSocket bool "errno option" "byte list list"
  | RegularFile

text \<open>The two \<^verbatim>\<open>printf\<close> lines of the source, with their arguments.\<close>

datatype out_line = Out_epoll_fd int | Out_result int "errno option" int

record world =
  heap :: "(addr \<times> nat \<times> obj) list"
  next_addr :: addr
  mem_free :: nat
  files :: "(int \<times> open_file) list"
  nofile :: nat
  errno :: "errno option"
  stdout :: "out_line list"

definition failure :: "world \<Rightarrow> errno \<Rightarrow> int \<times> world" where
  "failure w e = (- 1, w\<lparr>errno := Some e\<rparr>)"

definition printf :: "world \<Rightarrow> out_line \<Rightarrow> world" where
  "printf w l = w\<lparr>stdout := stdout w @ [l]\<rparr>"

subsection \<open>The allocator\<close>

text \<open>
  \<^verbatim>\<open>malloc(sz)\<close> returns a fresh block of \<open>sz\<close> bytes, or \<^verbatim>\<open>NULL\<close> when fewer than
  \<open>sz\<close> bytes are left (\<open>mem_free\<close>) or \<open>sz\<close> exceeds \<^verbatim>\<open>PTRDIFF_MAX\<close> (glibc refuses
  such requests); \<^verbatim>\<open>malloc(0)\<close> returns a block, as glibc does.
  The third argument is the typed view of the new block's indeterminate content.
  \<^verbatim>\<open>free(NULL)\<close> does nothing; freeing an address that is not a live block is
  undefined behaviour (\<open>InvalidFree\<close>).
\<close>

abbreviation (input) PTRDIFF_MAX :: nat where "PTRDIFF_MAX \<equiv> 9223372036854775807"

definition malloc :: "world \<Rightarrow> 64 word \<Rightarrow> obj \<Rightarrow> addr \<times> world" where
  "malloc w sz ob =
     (if unat sz \<le> mem_free w \<and> unat sz \<le> PTRDIFF_MAX
      then (next_addr w,
            w\<lparr>heap := AList.update (next_addr w) (unat sz, ob) (heap w),
              next_addr := next_addr w + 1,
              mem_free := mem_free w - unat sz\<rparr>)
      else (0, w\<lparr>errno := Some ENOMEM\<rparr>))"

definition free :: "world \<Rightarrow> addr \<Rightarrow> world outcome" where
  "free w p =
     (if p = 0 then Done w
      else case map_of (heap w) p of
             None \<Rightarrow> Fault InvalidFree
           | Some (sz, ob) \<Rightarrow>
               Done (w\<lparr>heap := AList.delete p (heap w), mem_free := mem_free w + sz\<rparr>))"

definition store :: "world \<Rightarrow> addr \<Rightarrow> obj \<Rightarrow> world" where
  "store w p ob =
     (case map_of (heap w) p of
        None \<Rightarrow> w
      | Some (sz, old) \<Rightarrow> w\<lparr>heap := AList.update p (sz, ob) (heap w)\<rparr>)"

definition live :: "world \<Rightarrow> addr \<Rightarrow> bool" where
  "live w p = (map_of (heap w) p \<noteq> None)"

text \<open>Loads through a pointer of the source: a null, dangling or mistyped pointer faults.\<close>

definition load_state :: "world \<Rightarrow> addr \<Rightarrow> epoll_state outcome" where
  "load_state w p =
     (if p = 0 then Fault NullPointer
      else case map_of (heap w) p of
             Some (sz, StateObj st) \<Rightarrow> Done st
           | _ \<Rightarrow> Fault InvalidPointer)"

definition load_mmsghdr :: "world \<Rightarrow> addr \<Rightarrow> int \<Rightarrow> mmsghdr outcome" where
  "load_mmsghdr w p i =
     (if p = 0 then Fault NullPointer
      else case map_of (heap w) p of
             Some (sz, MsgArr ms) \<Rightarrow>
               if 0 \<le> i \<and> i < int (length ms) then Done (ms ! nat i) else Fault OutOfBounds
           | _ \<Rightarrow> Fault InvalidPointer)"

definition load_iovec :: "world \<Rightarrow> addr \<Rightarrow> iovec outcome" where
  "load_iovec w p =
     (if p = 0 then Fault NullPointer
      else case map_of (heap w) p of
             Some (sz, IoVecObj v) \<Rightarrow> Done v
           | _ \<Rightarrow> Fault InvalidPointer)"

text \<open>
  \<^verbatim>\<open>state->udp_rcv[i].msg_hdr.msg_iov = io; state->udp_rcv[i].msg_hdr.msg_iovlen = 1;\<close>
  (lines 74 and 75 of the source), as one store into entry \<open>i\<close> of the array.
\<close>

definition store_msg_iov :: "world \<Rightarrow> addr \<Rightarrow> int \<Rightarrow> addr \<Rightarrow> world outcome" where
  "store_msg_iov w p i io =
     (if p = 0 then Fault NullPointer
      else case map_of (heap w) p of
             Some (sz, MsgArr ms) \<Rightarrow>
               if 0 \<le> i \<and> i < int (length ms)
               then Done (store w p (MsgArr (ms[nat i := (ms ! nat i)\<lparr>msg_iov := io, msg_iovlen := 1\<rparr>])))
               else Fault OutOfBounds
           | _ \<Rightarrow> Fault InvalidPointer)"

subsection \<open>The kernel calls the source makes\<close>

text \<open>
  The calls follow their manual pages (section 2) and \<^verbatim>\<open>fs/eventpoll.c\<close>,
  \<^verbatim>\<open>fs/eventfd.c\<close> and \<^verbatim>\<open>net/socket.c\<close> of Linux, for one process in which nothing
  else runs: a call that would wait for another thread or for the network never
  returns (\<open>None\<close>). Each returns the C result (\<open>-1\<close> on failure, with \<open>errno\<close> set)
  and the new state. Sizes are those of x86-64 Linux.
\<close>

abbreviation (input) sizeof_epoll_event :: "64 word" where "sizeof_epoll_event \<equiv> 12"
abbreviation (input) sizeof_epoll_state :: "64 word" where "sizeof_epoll_state \<equiv> 48"
abbreviation (input) sizeof_mmsghdr :: "64 word" where "sizeof_mmsghdr \<equiv> 64"
abbreviation (input) sizeof_iovec :: "64 word" where "sizeof_iovec \<equiv> 16"

abbreviation (input) EPOLLIN :: "32 word" where "EPOLLIN \<equiv> 1"
abbreviation (input) EPOLLPRI :: "32 word" where "EPOLLPRI \<equiv> 2"
abbreviation (input) EPOLLOUT :: "32 word" where "EPOLLOUT \<equiv> 4"
abbreviation (input) EPOLLERR :: "32 word" where "EPOLLERR \<equiv> 8"
abbreviation (input) EPOLLHUP :: "32 word" where "EPOLLHUP \<equiv> 16"
abbreviation (input) EPOLLRDNORM :: "32 word" where "EPOLLRDNORM \<equiv> 64"
abbreviation (input) EPOLLRDBAND :: "32 word" where "EPOLLRDBAND \<equiv> 128"
abbreviation (input) EPOLLWRNORM :: "32 word" where "EPOLLWRNORM \<equiv> 256"
abbreviation (input) EPOLLWRBAND :: "32 word" where "EPOLLWRBAND \<equiv> 512"
abbreviation (input) EPOLLEXCLUSIVE :: "32 word" where "EPOLLEXCLUSIVE \<equiv> 268435456"
abbreviation (input) EPOLLWAKEUP :: "32 word" where "EPOLLWAKEUP \<equiv> 536870912"
abbreviation (input) EPOLLONESHOT :: "32 word" where "EPOLLONESHOT \<equiv> 1073741824"
abbreviation (input) EPOLLET :: "32 word" where "EPOLLET \<equiv> 2147483648"

text \<open>
  \<^verbatim>\<open>EP_PRIVATE_BITS\<close> is \<^verbatim>\<open>EPOLLWAKEUP | EPOLLONESHOT | EPOLLET | EPOLLEXCLUSIVE\<close>, the bits
  of a mask that are flags and not events; \<^verbatim>\<open>EPOLLEXCLUSIVE_OK_BITS\<close> is
  \<^verbatim>\<open>EPOLLIN | EPOLLOUT | EPOLLERR | EPOLLHUP | EPOLLWAKEUP | EPOLLET | EPOLLEXCLUSIVE\<close>.
\<close>

abbreviation (input) EP_PRIVATE_BITS :: "32 word" where "EP_PRIVATE_BITS \<equiv> 4026531840"
abbreviation (input) EPOLLEXCLUSIVE_OK_BITS :: "32 word" where "EPOLLEXCLUSIVE_OK_BITS \<equiv> 2952790045"

abbreviation (input) EPOLL_CTL_ADD :: int where "EPOLL_CTL_ADD \<equiv> 1"
abbreviation (input) EPOLL_CTL_DEL :: int where "EPOLL_CTL_DEL \<equiv> 2"
abbreviation (input) EPOLL_CTL_MOD :: int where "EPOLL_CTL_MOD \<equiv> 3"

abbreviation (input) EFD_NONBLOCK :: "32 word" where "EFD_NONBLOCK \<equiv> 2048"
abbreviation (input) EFD_CLOEXEC :: "32 word" where "EFD_CLOEXEC \<equiv> 524288"
abbreviation (input) EPOLL_CLOEXEC :: "32 word" where "EPOLL_CLOEXEC \<equiv> 524288"

text \<open>\<^verbatim>\<open>EP_MAX_EVENTS\<close> is \<^verbatim>\<open>INT_MAX / sizeof(struct epoll_event)\<close>.\<close>

abbreviation (input) EP_MAX_EVENTS :: int where "EP_MAX_EVENTS \<equiv> 178956970"

text \<open>The lowest descriptor number below the limit \<open>nofile\<close> that is not open.\<close>

fun lowest_free :: "(int \<times> open_file) list \<Rightarrow> nat \<Rightarrow> int \<Rightarrow> int option" where
  "lowest_free fs 0 n = None"
| "lowest_free fs (Suc k) n = (if map_of fs n = None then Some n else lowest_free fs k (n + 1))"

definition alloc_fd :: "world \<Rightarrow> open_file \<Rightarrow> int \<times> world" where
  "alloc_fd w f =
     (case lowest_free (files w) (nofile w) 0 of
        None \<Rightarrow> failure w EMFILE
      | Some n \<Rightarrow> (n, w\<lparr>files := AList.update n f (files w)\<rparr>))"

definition sys_epoll_create1 :: "world \<Rightarrow> 32 word \<Rightarrow> int \<times> world" where
  "sys_epoll_create1 w flags =
     (if flags AND NOT EPOLL_CLOEXEC \<noteq> 0 then failure w EINVAL else alloc_fd w (EpollFile [] []))"

text \<open>
  \<^verbatim>\<open>eventfd(initval, flags)\<close> for the flags \<^verbatim>\<open>EFD_NONBLOCK\<close> and \<^verbatim>\<open>EFD_CLOEXEC\<close>
  (semaphore mode, which the source never asks for, is not part of the model).
\<close>

definition sys_eventfd :: "world \<Rightarrow> 32 word \<Rightarrow> 32 word \<Rightarrow> int \<times> world" where
  "sys_eventfd w initval flags =
     (if flags AND NOT (EFD_NONBLOCK OR EFD_CLOEXEC) \<noteq> 0 then failure w EINVAL
      else alloc_fd w (EventFd (flags AND EFD_NONBLOCK \<noteq> 0) (ucast initval)))"

text \<open>Closing a descriptor also removes it from every interest list and ready list.\<close>

fun forget :: "int \<Rightarrow> open_file \<Rightarrow> open_file" where
  "forget n (EpollFile l q) = EpollFile (filter (\<lambda>e. fst e \<noteq> n) l) (removeAll n q)"
| "forget n (EventFd nb c) = EventFd nb c"
| "forget n (UdpSocket nb err q) = UdpSocket nb err q"
| "forget n RegularFile = RegularFile"

definition sys_close :: "world \<Rightarrow> int \<Rightarrow> int \<times> world" where
  "sys_close w n =
     (case map_of (files w) n of
        None \<Rightarrow> failure w EBADF
      | Some f \<Rightarrow> (0, w\<lparr>files := map (\<lambda>e. (fst e, forget n (snd e))) (AList.delete n (files w))\<rparr>))"

text \<open>
  What a file reports when polled: an eventfd is readable while its counter is not
  zero (\<^verbatim>\<open>eventfd_poll\<close>); a UDP socket is readable while a datagram is pending and
  always writable (\<^verbatim>\<open>datagram_poll\<close>). Readiness of an epoll instance nested in
  another is not modelled.
\<close>

fun poll_mask :: "open_file \<Rightarrow> 32 word" where
  "poll_mask (EventFd nb c) =
     (if c \<noteq> 0 then EPOLLIN else 0) OR (if c = 18446744073709551615 then EPOLLERR else 0)
       OR (if c < 18446744073709551614 then EPOLLOUT else 0)"
| "poll_mask (UdpSocket nb err q) =
     (if q \<noteq> [] then EPOLLIN OR EPOLLRDNORM else 0) OR (if err \<noteq> None then EPOLLERR else 0)
       OR (EPOLLOUT OR EPOLLWRNORM OR EPOLLWRBAND)"
| "poll_mask (EpollFile l q) = 0"
| "poll_mask RegularFile = 0"

text \<open>
  \<^verbatim>\<open>ep_item_poll\<close> and the record \<^verbatim>\<open>ep_send_events\<close> builds from it: the events the file
  of descriptor \<open>n\<close> reports now that are in its registered mask, with the registered
  tag; \<open>None\<close> when there is none.
\<close>

definition report :: "(int \<times> open_file) list \<Rightarrow> (int \<times> epoll_event) list \<Rightarrow> int \<Rightarrow> epoll_event option" where
  "report fs l n =
     (case map_of l n of
        None \<Rightarrow> None
      | Some e \<Rightarrow>
          (case map_of fs n of
             None \<Rightarrow> None
           | Some f \<Rightarrow>
               if poll_mask f AND ev_events e = 0 then None
               else Some \<lparr>ev_events = poll_mask f AND ev_events e, ev_data_u32 = ev_data_u32 e\<rparr>))"

text \<open>
  \<^verbatim>\<open>ep_poll_callback\<close>: a file of descriptor \<open>n\<close> wakes its pollers with the events
  \<open>key\<close>. An epoll instance that has the descriptor registered with one of these
  events, and not disabled by \<^verbatim>\<open>EPOLLONESHOT\<close>, links it at the tail of its ready list
  unless it is linked already. With nobody waiting in \<^verbatim>\<open>epoll_wait\<close>, as in this
  one-thread model, \<^verbatim>\<open>EPOLLEXCLUSIVE\<close> stops no callback.
\<close>

definition enqueue :: "int \<Rightarrow> int list \<Rightarrow> int list" where
  "enqueue n q = (if n \<in> set q then q else q @ [n])"

fun notify :: "32 word \<Rightarrow> int \<Rightarrow> open_file \<Rightarrow> open_file" where
  "notify key n (EpollFile l q) =
     (case map_of l n of
        None \<Rightarrow> EpollFile l q
      | Some e \<Rightarrow>
          if ev_events e AND NOT EP_PRIVATE_BITS = 0 \<or> ev_events e AND key = 0 then EpollFile l q
          else EpollFile l (enqueue n q))"
| "notify key n (EventFd nb c) = EventFd nb c"
| "notify key n (UdpSocket nb err q) = UdpSocket nb err q"
| "notify key n RegularFile = RegularFile"

definition wake_up :: "32 word \<Rightarrow> int \<Rightarrow> (int \<times> open_file) list \<Rightarrow> (int \<times> open_file) list" where
  "wake_up key n fs = map (\<lambda>e. (fst e, notify key n (snd e))) fs"

text \<open>
  \<^verbatim>\<open>epoll_ctl\<close>. The event the caller points to is passed by value (\<open>None\<close>: the
  pointer cannot be read). The checks come in the kernel's order; as the kernel
  does, the stored mask always includes \<^verbatim>\<open>EPOLLERR\<close> and \<^verbatim>\<open>EPOLLHUP\<close>, and a
  descriptor that is ready when it is added or modified (\<^verbatim>\<open>ep_insert\<close>, \<^verbatim>\<open>ep_modify\<close>) is
  linked at the tail of the ready list. The limit on watches, and the loop check
  for nested epoll instances, are not modelled.
\<close>

definition registered :: "(int \<times> epoll_event) list \<Rightarrow> int \<Rightarrow> bool" where
  "registered l n = (map_of l n \<noteq> None)"

definition with_err_hup :: "epoll_event \<Rightarrow> epoll_event" where
  "with_err_hup ev = ev\<lparr>ev_events := ev_events ev OR EPOLLERR OR EPOLLHUP\<rparr>"

definition set_interest :: "world \<Rightarrow> int \<Rightarrow> (int \<times> epoll_event) list \<Rightarrow> int list \<Rightarrow> int \<times> world" where
  "set_interest w epfd l q = (0, w\<lparr>files := AList.update epfd (EpollFile l q) (files w)\<rparr>)"

fun is_epoll :: "open_file \<Rightarrow> bool" where
  "is_epoll (EpollFile l q) = True"
| "is_epoll (EventFd nb c) = False"
| "is_epoll (UdpSocket nb err q) = False"
| "is_epoll RegularFile = False"

definition sys_epoll_ctl :: "world \<Rightarrow> int \<Rightarrow> int \<Rightarrow> int \<Rightarrow> epoll_event option \<Rightarrow> int \<times> world" where
  "sys_epoll_ctl w epfd op n evo =
     (case (if op = EPOLL_CTL_DEL then Some \<lparr>ev_events = 0, ev_data_u32 = 0\<rparr> else evo) of
        None \<Rightarrow> failure w EFAULT
      | Some ev \<Rightarrow>
         (case map_of (files w) epfd of
            None \<Rightarrow> failure w EBADF
          | Some f \<Rightarrow>
             (case map_of (files w) n of
                None \<Rightarrow> failure w EBADF
              | Some tf \<Rightarrow>
                  if tf = RegularFile then failure w EPERM
                  else if epfd = n then failure w EINVAL
                  else (case f of
                          EpollFile l q \<Rightarrow>
                            if op \<noteq> EPOLL_CTL_DEL \<and> ev_events ev AND EPOLLEXCLUSIVE \<noteq> 0 \<and>
                               (op = EPOLL_CTL_MOD \<or>
                                (op = EPOLL_CTL_ADD \<and>
                                 (is_epoll tf \<or> ev_events ev AND NOT EPOLLEXCLUSIVE_OK_BITS \<noteq> 0)))
                            then failure w EINVAL
                            else if op = EPOLL_CTL_ADD then
                              (if registered l n then failure w EEXIST
                               else set_interest w epfd (l @ [(n, with_err_hup ev)])
                                      (if poll_mask tf AND ev_events (with_err_hup ev) = 0 then q
                                       else enqueue n q))
                            else if op = EPOLL_CTL_MOD then
                              (case map_of l n of
                                 None \<Rightarrow> failure w ENOENT
                               | Some old \<Rightarrow>
                                   if ev_events old AND EPOLLEXCLUSIVE \<noteq> 0 then failure w EINVAL
                                   else set_interest w epfd (AList.update n (with_err_hup ev) l)
                                          (if poll_mask tf AND ev_events (with_err_hup ev) = 0 then q
                                           else enqueue n q))
                            else if op = EPOLL_CTL_DEL then
                              (if registered l n
                               then set_interest w epfd (AList.delete n l) (removeAll n q)
                               else failure w ENOENT)
                            else failure w EINVAL
                        | EventFd nb c \<Rightarrow> failure w EINVAL
                        | UdpSocket nb err q \<Rightarrow> failure w EINVAL
                        | RegularFile \<Rightarrow> failure w EINVAL))))"

text \<open>
  The scan of \<^verbatim>\<open>ep_send_events\<close> over the ready list, head first, with room for \<open>k\<close>
  more records: a descriptor is unlinked and polled; one that reports nothing is
  dropped, the others are reported until the room is used up. The result is the
  records to write, each with its descriptor, and the part of the list not scanned.
\<close>

fun harvest :: "(int \<times> open_file) list \<Rightarrow> (int \<times> epoll_event) list \<Rightarrow> nat \<Rightarrow> int list
    \<Rightarrow> (int \<times> epoll_event) list \<times> int list" where
  "harvest fs l k [] = ([], [])"
| "harvest fs l k (n # q) =
     (if k = 0 then ([], n # q)
      else case report fs l n of
             None \<Rightarrow> harvest fs l k q
           | Some ev \<Rightarrow> (case harvest fs l (k - 1) q of (rs, rest) \<Rightarrow> ((n, ev) # rs, rest)))"

text \<open>
  What the scan does with a descriptor it has reported: a one-shot entry is disabled
  (only the flag bits of its mask are kept), an edge-triggered entry stays unlinked,
  and any other entry is linked again at the tail of the ready list.
\<close>

definition disarm :: "int list \<Rightarrow> (int \<times> epoll_event) list \<Rightarrow> (int \<times> epoll_event) list" where
  "disarm ns l =
     map (\<lambda>e. if fst e \<in> set ns \<and> ev_events (snd e) AND EPOLLONESHOT \<noteq> 0
               then (fst e, (snd e)\<lparr>ev_events := ev_events (snd e) AND EP_PRIVATE_BITS\<rparr>)
               else e) l"

definition requeue :: "(int \<times> epoll_event) list \<Rightarrow> int list \<Rightarrow> int list" where
  "requeue l ns =
     filter (\<lambda>n. case map_of l n of
                   None \<Rightarrow> False
                 | Some e \<Rightarrow> ev_events e AND (EPOLLONESHOT OR EPOLLET) = 0) ns"

text \<open>
  \<^verbatim>\<open>epoll_wait(epfd, events, maxevents, timeout)\<close>. The records of the scan are
  written from index 0 of the caller's array; the descriptors not scanned stay at
  the head of the ready list, before the ones linked again. When the scan reports
  nothing the call returns 0 if the timeout is not negative, and never returns if
  it is: nothing else runs that could make a descriptor ready.
\<close>

definition sys_epoll_wait :: "world \<Rightarrow> int \<Rightarrow> addr \<Rightarrow> int \<Rightarrow> int \<Rightarrow> (int \<times> world) option" where
  "sys_epoll_wait w epfd evp maxevents timeout =
     (if maxevents \<le> 0 \<or> EP_MAX_EVENTS < maxevents then Some (failure w EINVAL)
      else case map_of (files w) epfd of
             None \<Rightarrow> Some (failure w EBADF)
           | Some (EpollFile l q) \<Rightarrow>
               (case harvest (files w) l (nat maxevents) q of
                  (rs, rest) \<Rightarrow>
                    if rs = [] then
                      (if timeout < 0 then None
                       else Some (0, w\<lparr>files := AList.update epfd (EpollFile l rest) (files w)\<rparr>))
                    else case map_of (heap w) evp of
                           Some (sz, EventArr cells) \<Rightarrow>
                             if length rs \<le> length cells
                             then Some (int (length rs),
                                        store (w\<lparr>files := AList.update epfd
                                                   (EpollFile (disarm (map fst rs) l)
                                                      (rest @ requeue l (map fst rs)))
                                                   (files w)\<rparr>)
                                          evp (EventArr (map (\<lambda>r. Some (snd r)) rs @ drop (length rs) cells)))
                             else Some (failure w EFAULT)
                         | _ \<Rightarrow> Some (failure w EFAULT))
           | Some _ \<Rightarrow> Some (failure w EINVAL))"

text \<open>
  \<^verbatim>\<open>write(fd, &d, 8)\<close> and \<^verbatim>\<open>read(fd, &d, 8)\<close> on an eventfd: a write adds \<open>d\<close> to
  the counter (\<^verbatim>\<open>EINVAL\<close> for \<^verbatim>\<open>0xffffffffffffffff\<close>, \<^verbatim>\<open>EAGAIN\<close> or blocking when the
  counter would pass \<^verbatim>\<open>0xfffffffffffffffe\<close>); a read returns the counter and resets it
  to zero (\<^verbatim>\<open>EAGAIN\<close> or blocking when it is zero). A write that succeeds wakes the
  pollers with \<^verbatim>\<open>EPOLLIN\<close>, whatever it added, and a read that succeeds wakes them with
  \<^verbatim>\<open>EPOLLOUT\<close>. The source applies them to the
  descriptor in \<open>efd\<close> only, which is an eventfd or \<open>-1\<close>; on any other kind of file the
  model reports \<^verbatim>\<open>EINVAL\<close>.
\<close>

definition sys_write :: "world \<Rightarrow> int \<Rightarrow> 64 word \<Rightarrow> (int \<times> world) option" where
  "sys_write w n d =
     (case map_of (files w) n of
        None \<Rightarrow> Some (failure w EBADF)
      | Some (EventFd nb c) \<Rightarrow>
          if d = 18446744073709551615 then Some (failure w EINVAL)
          else if unat c + unat d < 18446744073709551615
          then Some (8, w\<lparr>files := wake_up EPOLLIN n (AList.update n (EventFd nb (c + d)) (files w))\<rparr>)
          else if nb then Some (failure w EAGAIN) else None
      | Some _ \<Rightarrow> Some (failure w EINVAL))"

definition sys_read :: "world \<Rightarrow> int \<Rightarrow> (int \<times> world) option" where
  "sys_read w n =
     (case map_of (files w) n of
        None \<Rightarrow> Some (failure w EBADF)
      | Some (EventFd nb c) \<Rightarrow>
          if c = 0 then (if nb then Some (failure w EAGAIN) else None)
          else Some (8, w\<lparr>files := wake_up EPOLLOUT n (AList.update n (EventFd nb 0) (files w))\<rparr>)
      | Some _ \<Rightarrow> Some (failure w EINVAL))"

text \<open>
  \<^verbatim>\<open>recvmmsg(sockfd, msgvec, vlen, 0, NULL)\<close>. One datagram is received into entry
  \<open>i\<close> of the vector as \<^verbatim>\<open>recvmsg\<close> does for UDP: the first
  \<open>min (length d) iov_len\<close> bytes go to the buffer of the entry's single
  \<^verbatim>\<open>iovec\<close>, the rest of the datagram is discarded, and that count is stored in
  \<^verbatim>\<open>msg_len\<close>. Memory the kernel cannot read or write gives \<^verbatim>\<open>EFAULT\<close>
  (vectors of more than one \<^verbatim>\<open>iovec\<close> are not modelled and count as unreadable).
\<close>

definition store_msg_len :: "world \<Rightarrow> addr \<Rightarrow> nat \<Rightarrow> nat \<Rightarrow> world" where
  "store_msg_len w msgvec i n =
     (case map_of (heap w) msgvec of
        Some (sz, MsgArr ms) \<Rightarrow> store w msgvec (MsgArr (ms[i := (ms ! i)\<lparr>msg_len := of_nat n\<rparr>]))
      | _ \<Rightarrow> w)"

definition recv_into :: "world \<Rightarrow> addr \<Rightarrow> nat \<Rightarrow> byte list \<Rightarrow> errno + world" where
  "recv_into w msgvec i d =
     (case map_of (heap w) msgvec of
        Some (sz, MsgArr ms) \<Rightarrow>
          if i < length ms then
            (if msg_iovlen (ms ! i) = 0 then Inr (store_msg_len w msgvec i 0)
             else if msg_iovlen (ms ! i) = 1 then
               (case map_of (heap w) (msg_iov (ms ! i)) of
                  Some (szv, IoVecObj v) \<Rightarrow>
                    (let n = min (length d) (unat (iov_len v)) in
                     if n = 0 then Inr (store_msg_len w msgvec i 0)
                     else case map_of (heap w) (iov_base v) of
                            Some (szb, Buf cells) \<Rightarrow>
                              if n \<le> length cells
                              then Inr (store_msg_len
                                          (store w (iov_base v) (Buf (map Some (take n d) @ drop n cells)))
                                          msgvec i n)
                              else Inl EFAULT
                          | _ \<Rightarrow> Inl EFAULT)
                | _ \<Rightarrow> Inl EFAULT)
             else Inl EFAULT)
          else Inl EFAULT
      | _ \<Rightarrow> Inl EFAULT)"

text \<open>
  The loop of \<^verbatim>\<open>recvmmsg\<close> over the pending datagrams: it stops when \<open>vlen\<close>
  datagrams have been received, when none is pending (\<^verbatim>\<open>EAGAIN\<close>) or on the first
  error. It returns the state, the number received, the datagrams left and the error
  that stopped it.
\<close>

fun recv_each :: "world \<Rightarrow> addr \<Rightarrow> nat \<Rightarrow> nat \<Rightarrow> byte list list
    \<Rightarrow> world \<times> nat \<times> byte list list \<times> errno option" where
  "recv_each w msgvec vlen i [] = (w, i, [], if i < vlen then Some EAGAIN else None)"
| "recv_each w msgvec vlen i (d # q) =
     (if i < vlen then
        (case recv_into w msgvec i d of
           Inl e \<Rightarrow> (w, i, q, Some e)
         | Inr w1 \<Rightarrow> recv_each w1 msgvec vlen (Suc i) q)
      else (w, i, d # q, None))"

text \<open>
  A pending socket error is reported first and cleared. When the loop stopped on
  \<^verbatim>\<open>EAGAIN\<close>, a blocking socket waits for more datagrams (the call never returns in
  this one-process model); a non-blocking one returns the count received, or \<open>-1\<close>
  when that is zero. After another error the count is returned if it is not zero and
  the error is kept on the socket.
\<close>

definition set_socket :: "world \<Rightarrow> int \<Rightarrow> open_file \<Rightarrow> world" where
  "set_socket w n f = w\<lparr>files := AList.update n f (files w)\<rparr>"

definition sys_recvmmsg :: "world \<Rightarrow> int \<Rightarrow> addr \<Rightarrow> nat \<Rightarrow> (int \<times> world) option" where
  "sys_recvmmsg w n msgvec vlen =
     (case map_of (files w) n of
        None \<Rightarrow> Some (failure w EBADF)
      | Some (UdpSocket nb err q) \<Rightarrow>
          (case err of
             Some e \<Rightarrow> Some (failure (set_socket w n (UdpSocket nb None q)) e)
           | None \<Rightarrow>
              (case recv_each w msgvec vlen 0 q of
                 (w1, k, q1, stop) \<Rightarrow>
                   (case stop of
                      None \<Rightarrow> Some (int k, set_socket w1 n (UdpSocket nb None q1))
                    | Some e \<Rightarrow>
                        if e = EAGAIN \<and> \<not> nb then None
                        else if k = 0 then Some (failure (set_socket w1 n (UdpSocket nb None q1)) e)
                        else Some (int k, set_socket w1 n
                                     (UdpSocket nb (if e = EAGAIN then None else Some e) q1)))))
      | Some _ \<Rightarrow> Some (failure w ENOTSOCK))"

section \<open>The functions of the source\<close>

text \<open>\<^verbatim>\<open>Java_org_jetlang_epoll_EPoll_select\<close> (lines 24 to 33).\<close>

definition select :: "world \<Rightarrow> addr \<Rightarrow> jint \<Rightarrow> (int \<times> world) outcome" where
  "select w ptrAddress timeout =
     obind (load_state w ptrAddress) (\<lambda>state.
       case sys_epoll_wait w (fd state) (events state) (max_events state) (sint timeout) of
         None \<Rightarrow> Blocks
       | Some (result, w1) \<Rightarrow> Done (result, w1))"

text \<open>\<^verbatim>\<open>Java_org_jetlang_epoll_EPoll_getEventArrayAddress\<close> (lines 36 to 40).\<close>

definition getEventArrayAddress :: "world \<Rightarrow> addr \<Rightarrow> addr outcome" where
  "getEventArrayAddress w ptrAddress =
     obind (load_state w ptrAddress) (\<lambda>state. Done (events state))"


text \<open>\<^verbatim>\<open>Java_org_jetlang_epoll_EPoll_getEpollEventSize\<close> (lines 49 to 52).\<close>

definition getEpollEventSize :: int where
  "getEpollEventSize = uint sizeof_epoll_event"

text \<open>
  \<^verbatim>\<open>Java_org_jetlang_epoll_EPoll_init\<close> (lines 54 to 78). The loop of lines 69 to 76
  is \<open>init_slots\<close>. No result is checked anywhere: a failed \<^verbatim>\<open>epoll_create1\<close> or
  \<^verbatim>\<open>eventfd\<close> leaves \<open>-1\<close> in the state block, a failed \<^verbatim>\<open>malloc\<close> a null pointer, and
  the function goes on; it faults only where it dereferences a null pointer itself
  (\<^verbatim>\<open>state->\<close>, the \<^verbatim>\<open>memset\<close>, \<^verbatim>\<open>io->\<close>). The fields of the state block are stored
  one by one in the source; nothing reads the block in between, so the model stores
  the finished record once, before the loop.
\<close>

definition zero_mmsghdr :: mmsghdr where
  "zero_mmsghdr = \<lparr>msg_iov = 0, msg_iovlen = 0, msg_len = 0\<rparr>"

function init_slots :: "world \<Rightarrow> addr \<Rightarrow> int \<Rightarrow> int \<Rightarrow> jint \<Rightarrow> world outcome" where
  "init_slots w udp_rcv_p i n readBufferBytes =
     (if i < n then
        (case malloc w (scast readBufferBytes)
                (Buf (replicate (unat (scast readBufferBytes :: 64 word)) None)) of
           (buffer, w1) \<Rightarrow>
             (case malloc w1 sizeof_iovec Uninit of
                (io, w2) \<Rightarrow>
                  if io = 0 then Fault NullPointer
                  else obind (store_msg_iov
                                (store w2 io (IoVecObj \<lparr>iov_base = buffer, iov_len = scast readBufferBytes\<rparr>))
                                udp_rcv_p i io)
                         (\<lambda>w3. init_slots w3 udp_rcv_p (i + 1) n readBufferBytes)))
      else Done w)"
  by pat_completeness auto
termination
  by (relation "measure (\<lambda>(w, p, i, n, b). nat (n - i))") auto

declare init_slots.simps [simp del]

definition init :: "world \<Rightarrow> jint \<Rightarrow> jint \<Rightarrow> jint \<Rightarrow> (addr \<times> world) outcome" where
  "init w maxSelectedEvents maxDatagramsPerRead readBufferBytes =
     (case sys_epoll_create1 w 0 of
        (epoll_fd, w1) \<Rightarrow>
     (case malloc (printf w1 (Out_epoll_fd epoll_fd)) sizeof_epoll_state Uninit of
        (state, w2) \<Rightarrow>
     if state = 0 then Fault NullPointer else
     (case malloc w2 (scast maxSelectedEvents * sizeof_epoll_event)
             (EventArr (replicate (unat (scast maxSelectedEvents * sizeof_epoll_event) div 12) None)) of
        (events_p, w3) \<Rightarrow>
     (case sys_eventfd w3 0 EFD_NONBLOCK of
        (efd_v, w4) \<Rightarrow>
     (case sys_epoll_ctl w4 epoll_fd EPOLL_CTL_ADD efd_v
             (Some \<lparr>ev_events = EPOLLHUP OR EPOLLERR OR EPOLLIN, ev_data_u32 = 0\<rparr>) of
        (r, w5) \<Rightarrow>
     (case malloc w5 (scast maxDatagramsPerRead * sizeof_mmsghdr) Uninit of
        (udp_rcv_p, w6) \<Rightarrow>
     if udp_rcv_p = 0 \<and> scast maxDatagramsPerRead * sizeof_mmsghdr \<noteq> 0 then Fault NullPointer else
     obind (init_slots
              (store
                 (store w6 udp_rcv_p
                    (MsgArr (replicate (unat (scast maxDatagramsPerRead * sizeof_mmsghdr) div 64) zero_mmsghdr)))
                 state
                 (StateObj \<lparr>fd = epoll_fd, efd = efd_v, events = events_p,
                            max_events = sint maxSelectedEvents,
                            efd_event = \<lparr>ev_events = EPOLLHUP OR EPOLLERR OR EPOLLIN, ev_data_u32 = 0\<rparr>,
                            udp_rcv_len = sint maxDatagramsPerRead, udp_rcv = udp_rcv_p\<rparr>))
              udp_rcv_p 0 (sint maxDatagramsPerRead) readBufferBytes)
       (\<lambda>w7. Done (state, w7))))))))"

text \<open>
  \<^verbatim>\<open>Java_org_jetlang_epoll_EPoll_recvmmsg\<close> (lines 80 to 90). \<open>udp_rcv_len\<close> is
  converted to \<^verbatim>\<open>unsigned int\<close> for the call; the line is printed unless the result
  is 1.
\<close>

definition recvmmsg :: "world \<Rightarrow> addr \<Rightarrow> jint \<Rightarrow> (int \<times> world) outcome" where
  "recvmmsg w ptrAddress sock =
     obind (load_state w ptrAddress) (\<lambda>state.
       case sys_recvmmsg w (sint sock) (udp_rcv state) (nat (udp_rcv_len state mod 2 ^ 32)) of
         None \<Rightarrow> Blocks
       | Some (result, w1) \<Rightarrow>
           Done (result,
                 if result \<noteq> 1 then printf w1 (Out_result result (errno w1) (sint sock)) else w1))"

text \<open>
  \<^verbatim>\<open>Java_org_jetlang_epoll_EPoll_freeNativeMemory\<close> (lines 92 to 102), statement by
  statement; each statement reads the state block again, as \<^verbatim>\<open>state->\<close> does.
  \<^verbatim>\<open>state->udp_rcv->msg_hdr\<close> is entry 0 of the array: the buffer and the
  \<^verbatim>\<open>iovec\<close> of that entry are the only ones freed.
\<close>

definition freeNativeMemory :: "world \<Rightarrow> addr \<Rightarrow> world outcome" where
  "freeNativeMemory w ptrAddress =
     obind (load_state w ptrAddress) (\<lambda>s1. case sys_close w (fd s1) of (r1, w1) \<Rightarrow>
     obind (load_state w1 ptrAddress) (\<lambda>s2. case sys_close w1 (efd s2) of (r2, w2) \<Rightarrow>
     obind (load_state w2 ptrAddress) (\<lambda>s3.
     obind (free w2 (events s3)) (\<lambda>w3.
     obind (load_state w3 ptrAddress) (\<lambda>s4.
     obind (load_mmsghdr w3 (udp_rcv s4) 0) (\<lambda>m4.
     obind (load_iovec w3 (msg_iov m4)) (\<lambda>v4.
     obind (free w3 (iov_base v4)) (\<lambda>w4.
     obind (load_state w4 ptrAddress) (\<lambda>s5.
     obind (load_mmsghdr w4 (udp_rcv s5) 0) (\<lambda>m5.
     obind (free w4 (msg_iov m5)) (\<lambda>w5.
     obind (load_state w5 ptrAddress) (\<lambda>s6.
     obind (free w5 (udp_rcv s6)) (\<lambda>w6.
     free w6 ptrAddress)))))))))))))"

text \<open>
  \<^verbatim>\<open>Java_org_jetlang_epoll_EPoll_interrupt\<close> (lines 104 to 109). The local
  \<^verbatim>\<open>uint64_t d\<close> is written to the eventfd without ever being assigned: its value
  is whatever the stack holds, a parameter of the model.
\<close>

definition interrupt :: "world \<Rightarrow> addr \<Rightarrow> 64 word \<Rightarrow> world outcome" where
  "interrupt w ptrAddress d =
     obind (load_state w ptrAddress) (\<lambda>state.
       case sys_write w (efd state) d of
         None \<Rightarrow> Blocks
       | Some (r, w1) \<Rightarrow> Done w1)"


text \<open>
  \<^verbatim>\<open>Java_org_jetlang_epoll_EPoll_ctl\<close> (lines 119 to 128). The result of
  \<^verbatim>\<open>epoll_ctl\<close> is assigned to a local and never used; the function returns the
  address of the event record it allocated, which it never frees.
\<close>

definition ctl :: "world \<Rightarrow> addr \<Rightarrow> jint \<Rightarrow> jint \<Rightarrow> jint \<Rightarrow> jint \<Rightarrow> (addr \<times> world) outcome" where
  "ctl w ptrAddress op eventTypes sock idx =
     (case malloc w sizeof_epoll_event Uninit of
        (event, w1) \<Rightarrow>
          if event = 0 then Fault NullPointer
          else obind (load_state (store w1 event (EventObj \<lparr>ev_events = eventTypes, ev_data_u32 = idx\<rparr>))
                        ptrAddress)
                 (\<lambda>state.
                    case sys_epoll_ctl
                           (store w1 event (EventObj \<lparr>ev_events = eventTypes, ev_data_u32 = idx\<rparr>))
                           (fd state) (sint op) (sint sock)
                           (Some \<lparr>ev_events = eventTypes, ev_data_u32 = idx\<rparr>) of
                      (result, w2) \<Rightarrow> Done (event, w2)))"

section \<open>Well-formed states and test fixtures\<close>

text \<open>
  The allocator hands out \<open>next_addr\<close> next, so every live block lies below it and
  \<^verbatim>\<open>NULL\<close> is never a block.
\<close>

definition heap_ok :: "world \<Rightarrow> bool" where
  "heap_ok w = (0 < next_addr w \<and> list_all (\<lambda>e. 0 < fst e \<and> fst e < next_addr w) (heap w))"

text \<open>Descriptor numbers are not negative.\<close>

definition fds_ok :: "world \<Rightarrow> bool" where
  "fds_ok w = list_all (\<lambda>e. 0 \<le> fst e) (files w)"

text \<open>The block at an address, and the block seen at one type.\<close>

definition obj_at :: "world \<Rightarrow> addr \<Rightarrow> obj option" where
  "obj_at w p = map_option snd (map_of (heap w) p)"

definition state_at :: "world \<Rightarrow> addr \<Rightarrow> epoll_state option" where
  "state_at w p = (case obj_at w p of Some (StateObj st) \<Rightarrow> Some st | _ \<Rightarrow> None)"

definition msgs_at :: "world \<Rightarrow> addr \<Rightarrow> mmsghdr list option" where
  "msgs_at w p = (case obj_at w p of Some (MsgArr ms) \<Rightarrow> Some ms | _ \<Rightarrow> None)"

definition iovec_at :: "world \<Rightarrow> addr \<Rightarrow> iovec option" where
  "iovec_at w p = (case obj_at w p of Some (IoVecObj v) \<Rightarrow> Some v | _ \<Rightarrow> None)"

definition buf_at :: "world \<Rightarrow> addr \<Rightarrow> byte option list option" where
  "buf_at w p = (case obj_at w p of Some (Buf cells) \<Rightarrow> Some cells | _ \<Rightarrow> None)"

definition events_at :: "world \<Rightarrow> addr \<Rightarrow> epoll_event option list option" where
  "events_at w p = (case obj_at w p of Some (EventArr cells) \<Rightarrow> Some cells | _ \<Rightarrow> None)"

text \<open>
  A receive slot as \<^verbatim>\<open>init\<close> sets it up: one \<^verbatim>\<open>iovec\<close> of length \<open>c\<close> whose base is
  null (the buffer could not be allocated) or a buffer of \<open>c\<close> bytes.
\<close>

definition slot_buffer :: "world \<Rightarrow> mmsghdr \<Rightarrow> addr" where
  "slot_buffer w m = (case iovec_at w (msg_iov m) of None \<Rightarrow> 0 | Some v \<Rightarrow> iov_base v)"

definition slot_ok :: "world \<Rightarrow> 64 word \<Rightarrow> mmsghdr \<Rightarrow> bool" where
  "slot_ok w c m =
     (msg_iovlen m = 1 \<and>
      (case iovec_at w (msg_iov m) of
         None \<Rightarrow> False
       | Some v \<Rightarrow>
           iov_len v = c \<and>
           (iov_base v = 0 \<or>
            (unat c \<le> PTRDIFF_MAX \<and>
             (case buf_at w (iov_base v) of None \<Rightarrow> False | Some cells \<Rightarrow> length cells = unat c)))))"

text \<open>
  The slots \<open>lo\<close> to \<open>hi - 1\<close> of a vector, as the loop of \<^verbatim>\<open>init\<close> leaves them when it
  started in state \<open>w\<close>: each is set up, its blocks were allocated after \<open>w\<close>, and the
  blocks of a later slot lie above those of an earlier one.
\<close>

definition slots_inv :: "world \<Rightarrow> world \<Rightarrow> 64 word \<Rightarrow> mmsghdr list \<Rightarrow> nat \<Rightarrow> nat \<Rightarrow> bool" where
  "slots_inv w w' c ms lo hi =
     (\<forall>j. lo \<le> j \<and> j < hi \<longrightarrow>
        slot_ok w' c (ms ! j) \<and> next_addr w \<le> msg_iov (ms ! j) \<and>
        (slot_buffer w' (ms ! j) = 0 \<or> next_addr w \<le> slot_buffer w' (ms ! j)) \<and>
        (\<forall>k. j < k \<and> k < hi \<longrightarrow>
           msg_iov (ms ! j) < msg_iov (ms ! k) \<and>
           (slot_buffer w' (ms ! k) = 0 \<or> slot_buffer w' (ms ! j) < slot_buffer w' (ms ! k))))"

text \<open>
  What lines 56, 62 and 65 of \<^verbatim>\<open>init\<close> do to the descriptor table: the descriptor of
  the epoll instance, that of the eventfd (\<open>-1\<close> for one that could not be created)
  and the table afterwards.
\<close>

definition init_fds :: "world \<Rightarrow> int \<times> int \<times> (int \<times> open_file) list" where
  "init_fds w =
     (case lowest_free (files w) (nofile w) 0 of
        None \<Rightarrow> (- 1, - 1, files w)
      | Some a \<Rightarrow>
          (case lowest_free (AList.update a (EpollFile [] []) (files w)) (nofile w) 0 of
             None \<Rightarrow> (a, - 1, AList.update a (EpollFile [] []) (files w))
           | Some b \<Rightarrow>
               (a, b, AList.update a (EpollFile [(b, \<lparr>ev_events = 25, ev_data_u32 = 0\<rparr>)] [])
                        (AList.update b (EventFd True 0) (AList.update a (EpollFile [] []) (files w))))))"

definition live_blocks :: "world \<Rightarrow> addr list" where
  "live_blocks w = map fst (heap w)"

definition open_fds :: "world \<Rightarrow> int list" where
  "open_fds w = map fst (files w)"

text \<open>
  A fresh process: nothing allocated, descriptors 0 to 2 taken by the standard
  streams, room for 16 descriptors and 4096 bytes.
\<close>

definition boot :: world where
  "boot = \<lparr>heap = [], next_addr = 10, mem_free = 4096,
           files = [(0, RegularFile), (1, RegularFile), (2, RegularFile)],
           nofile = 16, errno = None, stdout = []\<rparr>"

text \<open>The caller's side opens a UDP socket at descriptor \<open>n\<close> with the datagrams \<open>q\<close> pending.\<close>

definition with_socket :: "world \<Rightarrow> int \<Rightarrow> bool \<Rightarrow> byte list list \<Rightarrow> world" where
  "with_socket w n nb q = w\<lparr>files := AList.update n (UdpSocket nb None q) (files w)\<rparr>"

text \<open>
  The state \<^verbatim>\<open>init(4, 2, 8)\<close> leaves in a fresh process; its handle is 10, the
  first block allocated.
\<close>

definition created :: world where
  "created = (case init boot 4 2 8 of Done (h, w) \<Rightarrow> w | Fault f \<Rightarrow> boot | Blocks \<Rightarrow> boot)"


definition signalled :: world where
  "signalled = (case interrupt created 10 1 of Done w \<Rightarrow> w | Fault f \<Rightarrow> created | Blocks \<Rightarrow> created)"

text \<open>
  The state \<^verbatim>\<open>init(1, 2, 8)\<close> leaves in a fresh process (room for one event), and the
  state \<^verbatim>\<open>init(4, 2, 8)\<close> leaves in a process that has no descriptor free.
\<close>

definition created1 :: world where
  "created1 = (case init boot 1 2 8 of Done (h, w) \<Rightarrow> w | Fault f \<Rightarrow> boot | Blocks \<Rightarrow> boot)"

definition starved :: world where
  "starved = (case init (boot\<lparr>nofile := 3\<rparr>) 4 2 8 of Done (h, w) \<Rightarrow> w | Fault f \<Rightarrow> boot | Blocks \<Rightarrow> boot)"

text \<open>
  On \<open>created1\<close>, a socket at descriptor 5 with one datagram pending is registered for
  \<^verbatim>\<open>EPOLLIN\<close> with the tag 7, then \<^verbatim>\<open>interrupt\<close> is called and its local held 1: two
  descriptors are ready and there is room for one event. On \<open>created\<close>, the same
  socket is registered for \<^verbatim>\<open>EPOLLIN | EPOLLET\<close>.
\<close>

definition busy :: world where
  "busy = (case obind (ctl (with_socket created1 5 True [[1]]) 10 1 1 5 7) (\<lambda>r. interrupt (snd r) 10 1) of
             Done w \<Rightarrow> w | Fault f \<Rightarrow> boot | Blocks \<Rightarrow> boot)"

definition edge :: world where
  "edge = (case ctl (with_socket created 5 True [[1]]) 10 1 2147483649 5 7 of
             Done r \<Rightarrow> snd r | Fault f \<Rightarrow> boot | Blocks \<Rightarrow> boot)"


text \<open>
  A datagram \<open>d\<close> arrives on the socket of descriptor \<open>n\<close>: it is queued and the socket
  wakes its pollers (\<^verbatim>\<open>sock_def_readable\<close>).
\<close>

definition deliver :: "world \<Rightarrow> int \<Rightarrow> byte list \<Rightarrow> world" where
  "deliver w n d =
     (case map_of (files w) n of
        Some (UdpSocket nb err q) \<Rightarrow>
          w\<lparr>files := wake_up (EPOLLIN OR EPOLLPRI OR EPOLLRDNORM OR EPOLLRDBAND) n
                       (AList.update n (UdpSocket nb err (q @ [d])) (files w))\<rparr>
      | _ \<Rightarrow> w)"

text \<open>
  What a wake-up by descriptor \<open>n\<close> can do to another open file: nothing, except that
  an epoll instance may have \<open>n\<close> linked to its ready list.
\<close>

fun evolves :: "int \<Rightarrow> open_file \<Rightarrow> open_file \<Rightarrow> bool" where
  "evolves n (EpollFile l q) f = (case f of EpollFile l' q' \<Rightarrow> l' = l \<and> set q' \<subseteq> insert n (set q) | _ \<Rightarrow> False)"
| "evolves n (EventFd nb c) f = (f = EventFd nb c)"
| "evolves n (UdpSocket nb err q) f = (f = UdpSocket nb err q)"
| "evolves n RegularFile f = (f = RegularFile)"


text \<open>
  The wake descriptor of a state block is as \<^verbatim>\<open>init\<close> leaves it: a non-blocking
  eventfd, or not open at all (\<^verbatim>\<open>eventfd\<close> failed and \<open>efd\<close> is \<open>-1\<close>). A wake-up is
  pending while its counter is not zero.
\<close>

definition wake_ok :: "world \<Rightarrow> epoll_state \<Rightarrow> bool" where
  "wake_ok w st =
     (case map_of (files w) (efd st) of
        None \<Rightarrow> True
      | Some (EventFd nb c) \<Rightarrow> nb
      | Some _ \<Rightarrow> False)"


text \<open>
  The interest list of a state block holds the wake descriptor once, with the mask
  \<^verbatim>\<open>EPOLLIN | EPOLLERR | EPOLLHUP\<close> and the tag 0, and no other entry has the tag 0.
\<close>

definition wake_reserved :: "world \<Rightarrow> epoll_state \<Rightarrow> bool" where
  "wake_reserved w st =
     (case map_of (files w) (fd st) of
        Some (EpollFile l q) \<Rightarrow>
          map_of l (efd st) = Some \<lparr>ev_events = 25, ev_data_u32 = 0\<rparr> \<and>
          distinct (map fst l) \<and>
          list_all (\<lambda>e. fst e = efd st \<or> ev_data_u32 (snd e) \<noteq> 0) l
      | _ \<Rightarrow> False)"

section \<open>Evaluation\<close>

lemma lowest_free_numeral:
  "lowest_free fs (numeral k) n =
     (if map_of fs n = None then Some n else lowest_free fs (pred_numeral k) (n + 1))"
  by (simp add: numeral_eq_Suc)

lemma replicate_numeral: "replicate (numeral k) x = x # replicate (pred_numeral k) x"
  by (simp add: numeral_eq_Suc)

lemmas run = malloc_def free_def store_def load_state_def load_mmsghdr_def
  load_iovec_def store_msg_iov_def failure_def printf_def alloc_fd_def sys_epoll_create1_def
  sys_eventfd_def sys_close_def registered_def with_err_hup_def set_interest_def
  sys_epoll_ctl_def sys_epoll_wait_def sys_write_def sys_read_def store_msg_len_def
  report_def enqueue_def wake_up_def disarm_def requeue_def deliver_def
  recv_into_def set_socket_def sys_recvmmsg_def zero_mmsghdr_def with_socket_def
  live_blocks_def open_fds_def lowest_free_numeral replicate_numeral Let_def init_slots.simps

lemma init_boot:
  "init boot 4 2 8 = Done (10, created)"
  by (simp add: created_def init_def boot_def run)

lemma created_eq:
  "created =
     \<lparr>heap =
        [(10, 48, StateObj \<lparr>fd = 3, efd = 4, events = 11, max_events = 4,
                             efd_event = \<lparr>ev_events = 25, ev_data_u32 = 0\<rparr>,
                             udp_rcv_len = 2, udp_rcv = 12\<rparr>),
         (11, 48, EventArr [None, None, None, None]),
         (12, 128, MsgArr [\<lparr>msg_iov = 14, msg_iovlen = 1, msg_len = 0\<rparr>,
                           \<lparr>msg_iov = 16, msg_iovlen = 1, msg_len = 0\<rparr>]),
         (13, 8, Buf [None, None, None, None, None, None, None, None]),
         (14, 16, IoVecObj \<lparr>iov_base = 13, iov_len = 8\<rparr>),
         (15, 8, Buf [None, None, None, None, None, None, None, None]),
         (16, 16, IoVecObj \<lparr>iov_base = 15, iov_len = 8\<rparr>)],
      next_addr = 17, mem_free = 3824,
      files = [(0, RegularFile), (1, RegularFile), (2, RegularFile),
               (3, EpollFile [(4, \<lparr>ev_events = 25, ev_data_u32 = 0\<rparr>)] []),
               (4, EventFd True 0)],
      nofile = 16, errno = None, stdout = [Out_epoll_fd 3]\<rparr>"
  by (simp add: created_def init_def boot_def run)



lemma signalled_eq:
  "signalled = created\<lparr>files := [(0, RegularFile), (1, RegularFile), (2, RegularFile),
               (3, EpollFile [(4, \<lparr>ev_events = 25, ev_data_u32 = 0\<rparr>)] [4]),
               (4, EventFd True 1)]\<rparr>"
  by (simp add: signalled_def interrupt_def created_eq run)

lemma interrupt_created: "interrupt created 10 1 = Done signalled"
  by (simp add: signalled_def interrupt_def created_eq run)

lemma created1_eq:
  "created1 =
     \<lparr>heap =
        [(10, 48, StateObj \<lparr>fd = 3, efd = 4, events = 11, max_events = 1,
                             efd_event = \<lparr>ev_events = 25, ev_data_u32 = 0\<rparr>,
                             udp_rcv_len = 2, udp_rcv = 12\<rparr>),
         (11, 12, EventArr [None]),
         (12, 128, MsgArr [\<lparr>msg_iov = 14, msg_iovlen = 1, msg_len = 0\<rparr>,
                           \<lparr>msg_iov = 16, msg_iovlen = 1, msg_len = 0\<rparr>]),
         (13, 8, Buf [None, None, None, None, None, None, None, None]),
         (14, 16, IoVecObj \<lparr>iov_base = 13, iov_len = 8\<rparr>),
         (15, 8, Buf [None, None, None, None, None, None, None, None]),
         (16, 16, IoVecObj \<lparr>iov_base = 15, iov_len = 8\<rparr>)],
      next_addr = 17, mem_free = 3860,
      files = [(0, RegularFile), (1, RegularFile), (2, RegularFile),
               (3, EpollFile [(4, \<lparr>ev_events = 25, ev_data_u32 = 0\<rparr>)] []),
               (4, EventFd True 0)],
      nofile = 16, errno = None, stdout = [Out_epoll_fd 3]\<rparr>"
  by (simp add: created1_def init_def boot_def run)


lemma busy_eq:
  "busy = created1\<lparr>heap := heap created1 @ [(17, 12, EventObj \<lparr>ev_events = 1, ev_data_u32 = 7\<rparr>)],
             next_addr := 18, mem_free := 3848,
             files := [(0, RegularFile), (1, RegularFile), (2, RegularFile),
               (3, EpollFile [(4, \<lparr>ev_events = 25, ev_data_u32 = 0\<rparr>),
                              (5, \<lparr>ev_events = 25, ev_data_u32 = 7\<rparr>)] [5, 4]),
               (4, EventFd True 1), (5, UdpSocket True None [[1]])]\<rparr>"
  by (simp add: busy_def ctl_def interrupt_def created1_eq run)

lemma edge_eq:
  "edge = created\<lparr>heap := heap created @ [(17, 12, EventObj \<lparr>ev_events = 2147483649, ev_data_u32 = 7\<rparr>)],
             next_addr := 18, mem_free := 3812,
             files := [(0, RegularFile), (1, RegularFile), (2, RegularFile),
               (3, EpollFile [(4, \<lparr>ev_events = 25, ev_data_u32 = 0\<rparr>),
                              (5, \<lparr>ev_events = 2147483673, ev_data_u32 = 7\<rparr>)] [5]),
               (4, EventFd True 0), (5, UdpSocket True None [[1]])]\<rparr>"
  by (simp add: edge_def ctl_def created_eq run)

lemma init_boot1: "init boot 1 2 8 = Done (10, created1)"
  by (simp add: created1_def init_def boot_def run)

lemma init_starved: "init (boot\<lparr>nofile := 3\<rparr>) 4 2 8 = Done (10, starved)"
  by (simp add: starved_def init_def boot_def run)

section \<open>Sizes computed from \<^verbatim>\<open>jint\<close> parameters\<close>

lemma sint32_bounds: "- 2147483648 \<le> sint (x::32 word) \<and> sint x < 2147483648"
  using sint_ge[of x] sint_lt[of x] by simp

lemma uint_scast_mod: "uint (scast (x::32 word) :: 64 word) = sint x mod 2 ^ 64"
proof -
  have "uint (word_of_int (sint x) :: 64 word) = sint x mod 2 ^ LENGTH(64)"
    by (rule uint_word_of_int)
  moreover have "LENGTH(64) = 64" by simp
  ultimately show ?thesis by (simp only: scast_eq)
qed

lemma uint_scast_nonneg: "0 \<le> sint (x::32 word) \<Longrightarrow> uint (scast x :: 64 word) = sint x"
proof -
  assume nn: "0 \<le> sint x"
  have "sint x < (2::int) ^ 64" using sint32_bounds[of x] by simp
  with nn have "sint x mod 2 ^ 64 = sint x" by (rule mod_pos_pos_trivial)
  then show ?thesis by (simp only: uint_scast_mod)
qed

lemma uint_scast_neg: "sint (x::32 word) < 0 \<Longrightarrow> uint (scast x :: 64 word) = 2 ^ 64 + sint x"
proof -
  assume neg: "sint x < 0"
  have "(sint x + 2 ^ 64) mod 2 ^ 64 = sint x + 2 ^ 64"
    using sint32_bounds[of x] neg by (intro mod_pos_pos_trivial) simp_all
  then have "sint x mod 2 ^ 64 = 2 ^ 64 + sint x" by (simp only: mod_add_self2 add.commute)
  then show ?thesis by (simp only: uint_scast_mod)
qed

lemma uint_mult_64: "uint ((a :: 64 word) * b) = uint a * uint b mod 2 ^ 64"
proof -
  have "uint (a * b) = uint a * uint b mod 2 ^ LENGTH(64)" by (rule uint_word_ariths)
  moreover have "LENGTH(64) = 64" by simp
  ultimately show ?thesis by (simp only:)
qed

lemma unat_size_nonneg:
  assumes "0 \<le> sint (x::32 word)"
  shows "unat (scast x :: 64 word) = nat (sint x)"
    and "unat ((scast x :: 64 word) * 12) = nat (sint x) * 12"
    and "unat ((scast x :: 64 word) * 64) = nat (sint x) * 64"
proof -
  have u: "uint (scast x :: 64 word) = sint x" using assms by (rule uint_scast_nonneg)
  have b: "sint x < 2147483648" using sint32_bounds[of x] by simp
  show "unat (scast x :: 64 word) = nat (sint x)" by (simp only: unat_eq_nat_uint u)
  have "sint x * 12 mod 2 ^ 64 = sint x * 12"
    using assms b by (intro mod_pos_pos_trivial) simp_all
  moreover have "uint (12 :: 64 word) = 12" by simp
  ultimately have "uint ((scast x :: 64 word) * 12) = sint x * 12"
    by (simp only: uint_mult_64 u)
  then have "unat ((scast x :: 64 word) * 12) = nat (sint x * 12)"
    by (simp only: unat_eq_nat_uint)
  also have "\<dots> = nat (sint x) * 12" using assms by (simp add: nat_mult_distrib)
  finally show "unat ((scast x :: 64 word) * 12) = nat (sint x) * 12" .
  have "sint x * 64 mod 2 ^ 64 = sint x * 64"
    using assms b by (intro mod_pos_pos_trivial) simp_all
  moreover have "uint (64 :: 64 word) = 64" by simp
  ultimately have "uint ((scast x :: 64 word) * 64) = sint x * 64"
    by (simp only: uint_mult_64 u)
  then have "unat ((scast x :: 64 word) * 64) = nat (sint x * 64)"
    by (simp only: unat_eq_nat_uint)
  also have "\<dots> = nat (sint x) * 64" using assms by (simp add: nat_mult_distrib)
  finally show "unat ((scast x :: 64 word) * 64) = nat (sint x) * 64" .
qed

lemma unat_size_neg:
  assumes "sint (x::32 word) < 0"
  shows "9223372036854775807 < unat (scast x :: 64 word)"
    and "9223372036854775807 < unat ((scast x :: 64 word) * 12)"
    and "9223372036854775807 < unat ((scast x :: 64 word) * 64)"
proof -
  have u: "uint (scast x :: 64 word) = 2 ^ 64 + sint x" using assms by (rule uint_scast_neg)
  have b: "- 2147483648 \<le> sint x" using sint32_bounds[of x] by simp
  show "9223372036854775807 < unat (scast x :: 64 word)"
    using b by (simp only: unat_eq_nat_uint u) simp
  have "(2 ^ 64 + sint x * 12) mod 2 ^ 64 = 2 ^ 64 + sint x * 12"
    using assms b by (intro mod_pos_pos_trivial) simp_all
  moreover have "(2 ^ 64 + sint x) * 12 mod 2 ^ 64 = (2 ^ 64 + sint x * 12) mod (2 ^ 64 :: int)"
  proof -
    have "(2 ^ 64 + sint x) * 12 = sint x * 12 + 2 ^ 64 * (12 :: int)" by (simp add: algebra_simps)
    moreover have "(sint x * 12 + 2 ^ 64 * 12) mod 2 ^ 64 = sint x * 12 mod (2 ^ 64 :: int)"
      by (rule mod_mult_self2)
    moreover have "(2 ^ 64 + sint x * 12) mod 2 ^ 64 = sint x * 12 mod (2 ^ 64 :: int)"
      by (rule mod_add_self1)
    ultimately show ?thesis by (simp only:)
  qed
  moreover have "uint (12 :: 64 word) = 12" by simp
  ultimately have "uint ((scast x :: 64 word) * 12) = 2 ^ 64 + sint x * 12"
    by (simp only: uint_mult_64 u)
  then show "9223372036854775807 < unat ((scast x :: 64 word) * 12)"
    using b by (simp only: unat_eq_nat_uint) simp
  have "(2 ^ 64 + sint x * 64) mod 2 ^ 64 = 2 ^ 64 + sint x * 64"
    using assms b by (intro mod_pos_pos_trivial) simp_all
  moreover have "(2 ^ 64 + sint x) * 64 mod 2 ^ 64 = (2 ^ 64 + sint x * 64) mod (2 ^ 64 :: int)"
  proof -
    have "(2 ^ 64 + sint x) * 64 = sint x * 64 + 2 ^ 64 * (64 :: int)" by (simp add: algebra_simps)
    moreover have "(sint x * 64 + 2 ^ 64 * 64) mod 2 ^ 64 = sint x * 64 mod (2 ^ 64 :: int)"
      by (rule mod_mult_self2)
    moreover have "(2 ^ 64 + sint x * 64) mod 2 ^ 64 = sint x * 64 mod (2 ^ 64 :: int)"
      by (rule mod_add_self1)
    ultimately show ?thesis by (simp only:)
  qed
  moreover have "uint (64 :: 64 word) = 64" by simp
  ultimately have "uint ((scast x :: 64 word) * 64) = 2 ^ 64 + sint x * 64"
    by (simp only: uint_mult_64 u)
  then show "9223372036854775807 < unat ((scast x :: 64 word) * 64)"
    using b by (simp only: unat_eq_nat_uint) simp
qed

section \<open>The allocator and typed loads\<close>

lemma obj_at_None_iff: "obj_at w a = None \<longleftrightarrow> a \<notin> fst ` set (heap w)"
  by (simp add: obj_at_def map_of_eq_None_iff)

lemma heap_ok_iff:
  "heap_ok w \<longleftrightarrow> 0 < next_addr w \<and> (\<forall>a. obj_at w a \<noteq> None \<longrightarrow> 0 < a \<and> a < next_addr w)"
  by (auto simp: heap_ok_def list_all_iff obj_at_None_iff)

lemma obj_at_bounds: "heap_ok w \<Longrightarrow> obj_at w a = Some ob \<Longrightarrow> 0 < a \<and> a < next_addr w"
  by (simp add: heap_ok_iff)


lemma obj_at_fresh: "heap_ok w \<Longrightarrow> next_addr w \<le> a \<Longrightarrow> obj_at w a = None"
  using heap_ok_iff by (metis not_le)

lemma obj_at_heap_same: "heap w' = heap w \<Longrightarrow> obj_at w' q = obj_at w q"
  by (simp add: obj_at_def)

lemma obj_at_heap_update:
  "heap w' = AList.update a (sz, ob) (heap w) \<Longrightarrow> obj_at w' q = (if q = a then Some ob else obj_at w q)"
  by (simp add: obj_at_def update_conv')

lemma obj_at_heap_delete:
  "heap w' = AList.delete a (heap w) \<Longrightarrow> obj_at w' q = (if q = a then None else obj_at w q)"
  by (simp add: obj_at_def delete_conv')

lemma malloc_null:
  "malloc w sz ob = (0, w') \<Longrightarrow> heap_ok w \<Longrightarrow> w' = w\<lparr>errno := Some ENOMEM\<rparr>"
  by (auto simp: malloc_def heap_ok_def split: if_splits)

lemma malloc_nonnull:
  "malloc w sz ob = (a, w') \<Longrightarrow> a \<noteq> 0 \<Longrightarrow>
     a = next_addr w \<and> unat sz \<le> mem_free w \<and> unat sz \<le> 9223372036854775807 \<and>
     heap w' = AList.update a (unat sz, ob) (heap w) \<and> next_addr w' = a + 1 \<and>
     mem_free w' = mem_free w - unat sz"
  by (auto simp: malloc_def split: if_splits)

lemma malloc_frame:
  "malloc w sz ob = (a, w') \<Longrightarrow> files w' = files w \<and> nofile w' = nofile w \<and> stdout w' = stdout w"
  by (auto simp: malloc_def split: if_splits)

lemma obj_at_malloc:
  assumes "malloc w sz ob = (a, w')" "heap_ok w"
  shows "obj_at w' q = (if a \<noteq> 0 \<and> q = a then Some ob else obj_at w q)"
proof (cases "a = 0")
  case True
  with assms have "w' = w\<lparr>errno := Some ENOMEM\<rparr>" by (simp add: malloc_null)
  then have "heap w' = heap w" by simp
  then have "obj_at w' q = obj_at w q" by (rule obj_at_heap_same)
  with True show ?thesis by simp
next
  case False
  with assms have "heap w' = AList.update a (unat sz, ob) (heap w)" by (simp add: malloc_nonnull)
  then have "obj_at w' q = (if q = a then Some ob else obj_at w q)" by (rule obj_at_heap_update)
  with False show ?thesis by simp
qed

lemma malloc_fresh:
  "malloc w sz ob = (a, w') \<Longrightarrow> heap_ok w \<Longrightarrow> a \<noteq> 0 \<Longrightarrow> obj_at w a = None"
proof -
  assume m: "malloc w sz ob = (a, w')" and ok: "heap_ok w" and nz: "a \<noteq> 0"
  from m nz have "a = next_addr w" by (simp add: malloc_nonnull)
  with ok show ?thesis by (simp add: obj_at_fresh)
qed

lemma next_addr_malloc: "malloc w sz ob = (a, w') \<Longrightarrow> next_addr w \<le> next_addr w'"
  by (auto simp: malloc_def split: if_splits)

lemma heap_ok_malloc:
  assumes "malloc w sz ob = (a, w')" "heap_ok w"
  shows "heap_ok w'"
proof -
  have pos: "0 < next_addr w'" using assms next_addr_malloc[OF assms(1)] by (simp add: heap_ok_iff)
  have "0 < q \<and> q < next_addr w'" if "obj_at w' q \<noteq> None" for q
  proof (cases "a \<noteq> 0 \<and> q = a")
    case True
    with assms have "a = next_addr w" "next_addr w' = a + 1" by (simp_all add: malloc_nonnull)
    with True show ?thesis by simp
  next
    case False
    with that obj_at_malloc[OF assms, of q] have "obj_at w q \<noteq> None" by auto
    with assms(2) have "0 < q \<and> q < next_addr w" by (simp add: heap_ok_iff)
    with next_addr_malloc[OF assms(1)] show ?thesis by simp
  qed
  with pos show ?thesis by (simp add: heap_ok_iff)
qed

lemma store_cases:
  "(obj_at w p = None \<and> store w p ob = w) \<or>
   (\<exists>sz old. map_of (heap w) p = Some (sz, old) \<and>
      store w p ob = w\<lparr>heap := AList.update p (sz, ob) (heap w)\<rparr>)"
  by (cases "map_of (heap w) p") (auto simp: store_def obj_at_def)

lemma obj_at_store:
  "obj_at (store w p ob) q = (if q = p \<and> obj_at w p \<noteq> None then Some ob else obj_at w q)"
proof (cases "map_of (heap w) p")
  case None
  then show ?thesis by (simp add: store_def obj_at_def)
next
  case (Some a)
  obtain sz old where a: "a = (sz, old)" by (cases a)
  have "heap (store w p ob) = AList.update p (sz, ob) (heap w)"
    by (simp add: store_def Some a)
  then have "obj_at (store w p ob) q = (if q = p then Some ob else obj_at w q)"
    by (rule obj_at_heap_update)
  moreover have "obj_at w p \<noteq> None" by (simp add: obj_at_def Some)
  ultimately show ?thesis by simp
qed

lemma store_frame: "files (store w p ob) = files w" "nofile (store w p ob) = nofile w"
  "next_addr (store w p ob) = next_addr w" "mem_free (store w p ob) = mem_free w"
  "errno (store w p ob) = errno w" "stdout (store w p ob) = stdout w"
  by (cases "map_of (heap w) p"; simp add: store_def split: prod.splits)+

lemma obj_at_store_None: "obj_at (store w p ob) q = None \<longleftrightarrow> obj_at w q = None"
  by (simp add: obj_at_store)

lemma heap_ok_store: "heap_ok (store w p ob) = heap_ok w"
  by (simp only: heap_ok_iff obj_at_store_None store_frame)

lemma free_cases:
  "free w p = Done w' \<Longrightarrow>
     (p = 0 \<and> w' = w) \<or>
     (p \<noteq> 0 \<and> (\<exists>sz ob. map_of (heap w) p = Some (sz, ob) \<and>
        w' = w\<lparr>heap := AList.delete p (heap w), mem_free := mem_free w + sz\<rparr>))"
  by (cases "map_of (heap w) p") (auto simp: free_def split: if_splits)

lemma obj_at_free:
  assumes "free w p = Done w'"
  shows "obj_at w' q = (if p \<noteq> 0 \<and> q = p then None else obj_at w q)"
proof -
  from free_cases[OF assms] consider "p = 0" "w' = w"
    | "p \<noteq> 0" "heap w' = AList.delete p (heap w)" by auto
  then show ?thesis
  proof cases
    case 1 then show ?thesis by simp
  next
    case 2
    from 2(2) have "obj_at w' q = (if q = p then None else obj_at w q)" by (rule obj_at_heap_delete)
    with 2(1) show ?thesis by simp
  qed
qed

lemma free_frame:
  "free w p = Done w' \<Longrightarrow> files w' = files w \<and> nofile w' = nofile w \<and> next_addr w' = next_addr w"
  by (drule free_cases) auto

lemma free_live: "p \<noteq> 0 \<Longrightarrow> obj_at w p \<noteq> None \<Longrightarrow> \<exists>w'. free w p = Done w'"
  by (cases "map_of (heap w) p") (auto simp: free_def obj_at_def)

lemma load_state_iff: "load_state w p = Done st \<longleftrightarrow> p \<noteq> 0 \<and> state_at w p = Some st"
  by (auto simp: load_state_def state_at_def obj_at_def split: option.splits obj.splits)


lemma load_mmsghdr_iff:
  "load_mmsghdr w p i = Done m \<longleftrightarrow>
     p \<noteq> 0 \<and> (\<exists>ms. msgs_at w p = Some ms \<and> 0 \<le> i \<and> i < int (length ms) \<and> m = ms ! nat i)"
  by (auto simp: load_mmsghdr_def msgs_at_def obj_at_def split: option.splits obj.splits)

section \<open>The loop of \<^verbatim>\<open>init\<close>\<close>

lemma store_msg_iov_Done:
  assumes "store_msg_iov w p i io = Done w'"
  shows "p \<noteq> 0 \<and> (\<exists>ms. msgs_at w p = Some ms \<and> 0 \<le> i \<and> i < int (length ms) \<and>
           w' = store w p (MsgArr (ms[nat i := (ms ! nat i)\<lparr>msg_iov := io, msg_iovlen := 1\<rparr>])))"
  using assms
  by (auto simp: store_msg_iov_def msgs_at_def obj_at_def split: if_splits option.splits obj.splits)

lemma typed_at_cong:
  assumes "obj_at w' a = obj_at w a"
  shows "state_at w' a = state_at w a" "msgs_at w' a = msgs_at w a" "iovec_at w' a = iovec_at w a"
    "buf_at w' a = buf_at w a" "events_at w' a = events_at w a"
  by (simp_all add: state_at_def msgs_at_def iovec_at_def buf_at_def events_at_def assms)

lemma slot_ok_cong:
  assumes "obj_at w' (msg_iov m) = obj_at w (msg_iov m)"
    and "obj_at w' (slot_buffer w m) = obj_at w (slot_buffer w m)"
  shows "slot_ok w' c m = slot_ok w c m" "slot_buffer w' m = slot_buffer w m"
proof -
  have i: "iovec_at w' (msg_iov m) = iovec_at w (msg_iov m)" by (simp add: iovec_at_def assms(1))
  show sb: "slot_buffer w' m = slot_buffer w m" by (simp add: slot_buffer_def i)
  show "slot_ok w' c m = slot_ok w c m"
  proof (cases "iovec_at w (msg_iov m)")
    case None
    then show ?thesis by (simp add: slot_ok_def i)
  next
    case (Some v)
    then have "slot_buffer w m = iov_base v" by (simp add: slot_buffer_def)
    with assms(2) have "buf_at w' (iov_base v) = buf_at w (iov_base v)" by (simp add: buf_at_def)
    then show ?thesis by (simp add: slot_ok_def i Some)
  qed
qed

lemma slot_ok_live:
  "slot_ok w c m \<Longrightarrow> obj_at w (msg_iov m) \<noteq> None \<and> (slot_buffer w m = 0 \<or> obj_at w (slot_buffer w m) \<noteq> None)"
  by (auto simp: slot_ok_def slot_buffer_def iovec_at_def buf_at_def split: option.splits obj.splits)

lemma init_slots_inv:
  "init_slots w p i n rb = Done w' \<Longrightarrow> heap_ok w \<Longrightarrow> 0 \<le> i \<Longrightarrow> msgs_at w p = Some ms \<Longrightarrow>
     heap_ok w' \<and> files w' = files w \<and> nofile w' = nofile w \<and> next_addr w \<le> next_addr w' \<and>
     (\<forall>a. obj_at w a \<noteq> None \<longrightarrow> a \<noteq> p \<longrightarrow> obj_at w' a = obj_at w a) \<and>
     (\<exists>ms'. msgs_at w' p = Some ms' \<and> length ms' = length ms \<and> (i < n \<longrightarrow> n \<le> int (length ms)) \<and>
        (\<forall>j<length ms. int j < i \<or> n \<le> int j \<longrightarrow> ms' ! j = ms ! j) \<and>
        slots_inv w w' (scast rb) ms' (nat i) (nat n))"
proof (induction "nat (n - i)" arbitrary: w i ms rule: less_induct)
  case less
  note run = less.prems(1) and ok = less.prems(2) and i0 = less.prems(3) and ms = less.prems(4)
  show ?case
  proof (cases "i < n")
    case False
    with run have "w' = w" by (simp add: init_slots.simps[of w p i n rb])
    moreover from False i0 have "nat n \<le> nat i" by simp
    ultimately show ?thesis using ok ms False by (auto simp: slots_inv_def)
  next
    case True
    let ?c = "scast rb :: 64 word"
    obtain buffer w1 where m1: "malloc w ?c (Buf (replicate (unat ?c) None)) = (buffer, w1)"
      by (cases "malloc w ?c (Buf (replicate (unat ?c) None))")
    obtain io w2 where m2: "malloc w1 16 Uninit = (io, w2)"
      by (cases "malloc w1 16 Uninit")
    define w2s where "w2s = store w2 io (IoVecObj \<lparr>iov_base = buffer, iov_len = ?c\<rparr>)"
    from run True m1 m2 have io0: "io \<noteq> 0"
      and rest: "obind (store_msg_iov w2s p i io) (\<lambda>w3. init_slots w3 p (i + 1) n rb) = Done w'"
      by (auto simp: init_slots.simps[of w p i n rb] w2s_def split: if_splits)
    from rest obtain w3 where s3: "store_msg_iov w2s p i io = Done w3"
      and rec: "init_slots w3 p (i + 1) n rb = Done w'"
      by (cases "store_msg_iov w2s p i io") auto
    have ok1: "heap_ok w1" using m1 ok by (rule heap_ok_malloc)
    have ok2: "heap_ok w2" using m2 ok1 by (rule heap_ok_malloc)
    have ok2s: "heap_ok w2s" by (simp add: w2s_def heap_ok_store ok2)
    have o1: "obj_at w1 q = (if buffer \<noteq> 0 \<and> q = buffer then Some (Buf (replicate (unat ?c) None)) else obj_at w q)" for q
      using m1 ok by (rule obj_at_malloc)
    have o2: "obj_at w2 q = (if q = io then Some Uninit else obj_at w1 q)" for q
      using obj_at_malloc[OF m2 ok1, of q] io0 by simp
    have o2s: "obj_at w2s q = (if q = io then Some (IoVecObj \<lparr>iov_base = buffer, iov_len = ?c\<rparr>) else obj_at w1 q)" for q
      by (simp add: w2s_def obj_at_store o2)
    have io_eq: "io = next_addr w1" and n2: "next_addr w2 = io + 1"
      using malloc_nonnull[OF m2 io0] by simp_all
    have n1: "next_addr w \<le> next_addr w1" using m1 by (rule next_addr_malloc)
    have buf_addr: "buffer = 0 \<or> (next_addr w \<le> buffer \<and> buffer < io)"
    proof (cases "buffer = 0")
      case False
      from malloc_nonnull[OF m1 False] have "buffer = next_addr w" "next_addr w1 = buffer + 1" by simp_all
      then show ?thesis using io_eq by simp
    qed simp
    have io_ge: "next_addr w \<le> io" using io_eq n1 by simp
    from ms have plive: "obj_at w p \<noteq> None" by (auto simp: msgs_at_def split: option.splits)
    then have pb: "0 < p \<and> p < next_addr w" using ok by (auto dest: obj_at_bounds)
    have old: "obj_at w2s a = obj_at w a" if "obj_at w a \<noteq> None" for a
    proof -
      from that ok have "a < next_addr w" by (auto dest: obj_at_bounds)
      with io_ge buf_addr have "a \<noteq> io" "buffer = 0 \<or> a \<noteq> buffer" by auto
      then show ?thesis by (auto simp: o2s o1)
    qed
    have "obj_at w2s p = obj_at w p" using plive by (rule old)
    then have ms2s: "msgs_at w2s p = Some ms" using ms by (simp add: msgs_at_def)
    define ms3 where "ms3 = ms[nat i := (ms ! nat i)\<lparr>msg_iov := io, msg_iovlen := 1\<rparr>]"
    from store_msg_iov_Done[OF s3] ms2s have ilen: "i < int (length ms)"
      and w3: "w3 = store w2s p (MsgArr ms3)" by (auto simp: ms3_def)
    have p2s: "obj_at w2s p \<noteq> None" using ms2s by (auto simp: msgs_at_def split: option.splits)
    have o3: "obj_at w3 q = (if q = p then Some (MsgArr ms3) else obj_at w2s q)" for q
      using p2s by (simp add: w3 obj_at_store)
    have ok3: "heap_ok w3" by (simp add: w3 heap_ok_store ok2s)
    have ms3at: "msgs_at w3 p = Some ms3" by (simp add: msgs_at_def o3)
    have len3: "length ms3 = length ms" by (simp add: ms3_def)
    have n3: "next_addr w3 = io + 1" by (simp add: w3 w2s_def store_frame n2)
    have f3: "files w3 = files w" "nofile w3 = nofile w"
      using malloc_frame[OF m1] malloc_frame[OF m2] by (simp_all add: w3 w2s_def store_frame)
    have IH:
      "heap_ok w' \<and> files w' = files w3 \<and> nofile w' = nofile w3 \<and> next_addr w3 \<le> next_addr w' \<and>
       (\<forall>a. obj_at w3 a \<noteq> None \<longrightarrow> a \<noteq> p \<longrightarrow> obj_at w' a = obj_at w3 a) \<and>
       (\<exists>ms'. msgs_at w' p = Some ms' \<and> length ms' = length ms3 \<and> (i + 1 < n \<longrightarrow> n \<le> int (length ms3)) \<and>
          (\<forall>j<length ms3. int j < i + 1 \<or> n \<le> int j \<longrightarrow> ms' ! j = ms3 ! j) \<and>
          slots_inv w3 w' (scast rb) ms' (nat (i + 1)) (nat n))"
      by (rule less.hyps[OF _ rec ok3 _ ms3at]) (use True i0 in simp_all)
    then obtain ms' where ms': "msgs_at w' p = Some ms'" and len': "length ms' = length ms3"
      and nlen: "i + 1 < n \<longrightarrow> n \<le> int (length ms3)"
      and same: "\<forall>j<length ms3. int j < i + 1 \<or> n \<le> int j \<longrightarrow> ms' ! j = ms3 ! j"
      and inv3: "slots_inv w3 w' ?c ms' (nat (i + 1)) (nat n)" by blast
    from IH have frame3: "obj_at w3 a \<noteq> None \<Longrightarrow> a \<noteq> p \<Longrightarrow> obj_at w' a = obj_at w3 a" for a by blast
    have frame: "obj_at w' a = obj_at w a" if "obj_at w a \<noteq> None" "a \<noteq> p" for a
    proof -
      have "obj_at w3 a = obj_at w a" using that by (simp add: o3 old)
      with that frame3[of a] show ?thesis by simp
    qed
    have nle: "n \<le> int (length ms)" using nlen ilen True len3 by (cases "i + 1 < n") auto
    have same': "ms' ! j = ms ! j" if "j < length ms" "int j < i \<or> n \<le> int j" for j
    proof -
      have ne: "j \<noteq> nat i"
      proof
        assume "j = nat i"
        then have "int j = i" using i0 by simp
        with that(2) True show False by simp
      qed
      from that same len3 have "ms' ! j = ms3 ! j" by auto
      with ne show ?thesis by (simp add: ms3_def)
    qed
    have mi: "ms' ! nat i = (ms ! nat i)\<lparr>msg_iov := io, msg_iovlen := 1\<rparr>"
    proof -
      from same len3 ilen i0 have "ms' ! nat i = ms3 ! nat i" by auto
      then show ?thesis using ilen i0 by (simp add: ms3_def)
    qed
    have pio: "p \<noteq> io" using pb io_ge by simp
    have io3: "obj_at w3 io = Some (IoVecObj \<lparr>iov_base = buffer, iov_len = ?c\<rparr>)"
      using pio by (simp add: o3 o2s)
    then have io': "obj_at w' io = Some (IoVecObj \<lparr>iov_base = buffer, iov_len = ?c\<rparr>)"
      using frame3[of io] pio by simp
    have buf': "buffer \<noteq> 0 \<Longrightarrow> obj_at w' buffer = Some (Buf (replicate (unat ?c) None))"
    proof -
      assume b0: "buffer \<noteq> 0"
      with buf_addr pb have ne: "buffer \<noteq> p" "buffer \<noteq> io" by auto
      then have "obj_at w3 buffer = Some (Buf (replicate (unat ?c) None))" using b0 by (simp add: o3 o2s o1)
      with frame3[of buffer] ne show ?thesis by simp
    qed
    have sb_i: "slot_buffer w' (ms' ! nat i) = buffer"
      by (simp add: slot_buffer_def iovec_at_def mi io')
    have ok_i: "slot_ok w' ?c (ms' ! nat i)"
    proof (cases "buffer = 0")
      case True
      then show ?thesis by (simp add: slot_ok_def iovec_at_def mi io')
    next
      case False
      from malloc_nonnull[OF m1 False] have "unat ?c \<le> 9223372036854775807" by simp
      with buf'[OF False] show ?thesis by (simp add: slot_ok_def iovec_at_def buf_at_def mi io')
    qed
    have inv: "slots_inv w w' ?c ms' (nat i) (nat n)"
      unfolding slots_inv_def
    proof (intro allI impI)
      fix j assume j: "nat i \<le> j \<and> j < nat n"
      show "slot_ok w' ?c (ms' ! j) \<and> next_addr w \<le> msg_iov (ms' ! j) \<and>
        (slot_buffer w' (ms' ! j) = 0 \<or> next_addr w \<le> slot_buffer w' (ms' ! j)) \<and>
        (\<forall>k. j < k \<and> k < nat n \<longrightarrow>
           msg_iov (ms' ! j) < msg_iov (ms' ! k) \<and>
           (slot_buffer w' (ms' ! k) = 0 \<or> slot_buffer w' (ms' ! j) < slot_buffer w' (ms' ! k)))"
      proof (cases "j = nat i")
        case True
        have sbj: "slot_buffer w' (ms' ! j) = buffer" and mj: "msg_iov (ms' ! j) = io"
          and okj: "slot_ok w' ?c (ms' ! j)"
          using sb_i ok_i by (simp_all add: True mi)
        have later: "msg_iov (ms' ! j) < msg_iov (ms' ! k) \<and>
           (slot_buffer w' (ms' ! k) = 0 \<or> slot_buffer w' (ms' ! j) < slot_buffer w' (ms' ! k))"
          if "j < k \<and> k < nat n" for k
        proof -
          from that True i0 have "nat (i + 1) \<le> k \<and> k < nat n" by auto
          with inv3 have "next_addr w3 \<le> msg_iov (ms' ! k)"
            and "slot_buffer w' (ms' ! k) = 0 \<or> next_addr w3 \<le> slot_buffer w' (ms' ! k)"
            by (auto simp: slots_inv_def)
          then show ?thesis using n3 buf_addr by (auto simp: sbj mj)
        qed
        show ?thesis using okj io_ge buf_addr later by (auto simp: sbj mj)
      next
        case False
        with j i0 have j3: "nat (i + 1) \<le> j \<and> j < nat n" by auto
        have n13: "next_addr w \<le> next_addr w3" using io_ge n3 by simp
        from inv3 j3 have a: "slot_ok w' ?c (ms' ! j)" and b: "next_addr w3 \<le> msg_iov (ms' ! j)"
          and c: "slot_buffer w' (ms' ! j) = 0 \<or> next_addr w3 \<le> slot_buffer w' (ms' ! j)"
          and d: "\<forall>k. j < k \<and> k < nat n \<longrightarrow>
           msg_iov (ms' ! j) < msg_iov (ms' ! k) \<and>
           (slot_buffer w' (ms' ! k) = 0 \<or> slot_buffer w' (ms' ! j) < slot_buffer w' (ms' ! k))"
          unfolding slots_inv_def by blast+
        from a b c d n13 show ?thesis by auto
      qed
    qed
    have "next_addr w \<le> next_addr w'" using IH io_ge n3 by simp
    moreover have "files w' = files w" "nofile w' = nofile w" using IH f3 by simp_all
    moreover have "heap_ok w'" using IH by simp
    ultimately show ?thesis using frame ms' len' len3 nle same' inv True by auto
  qed
qed

lemma store_msg_iov_ok:
  assumes "msgs_at w p = Some ms" "p \<noteq> 0" "0 \<le> i" "i < int (length ms)"
  shows "store_msg_iov w p i io =
           Done (store w p (MsgArr (ms[nat i := (ms ! nat i)\<lparr>msg_iov := io, msg_iovlen := 1\<rparr>])))"
  using assms
  by (auto simp: store_msg_iov_def msgs_at_def obj_at_def split: option.splits obj.splits)

lemma init_slots_outcome:
  "heap_ok w \<Longrightarrow> 0 \<le> i \<Longrightarrow> msgs_at w p = Some ms \<Longrightarrow> n \<le> int (length ms) \<Longrightarrow>
     init_slots w p i n rb = Fault NullPointer \<or> (\<exists>w'. init_slots w p i n rb = Done w')"
proof (induction "nat (n - i)" arbitrary: w i ms rule: less_induct)
  case less
  note ok = less.prems(1) and i0 = less.prems(2) and ms = less.prems(3) and nlen = less.prems(4)
  show ?case
  proof (cases "i < n")
    case False
    then show ?thesis by (simp add: init_slots.simps[of w p i n rb])
  next
    case True
    let ?c = "scast rb :: 64 word"
    obtain buffer w1 where m1: "malloc w ?c (Buf (replicate (unat ?c) None)) = (buffer, w1)"
      by (cases "malloc w ?c (Buf (replicate (unat ?c) None))")
    obtain io w2 where m2: "malloc w1 16 Uninit = (io, w2)"
      by (cases "malloc w1 16 Uninit")
    define w2s where "w2s = store w2 io (IoVecObj \<lparr>iov_base = buffer, iov_len = ?c\<rparr>)"
    have unf: "init_slots w p i n rb =
        (if io = 0 then Fault NullPointer
         else obind (store_msg_iov w2s p i io) (\<lambda>w3. init_slots w3 p (i + 1) n rb))"
      using True m1 m2 by (simp add: init_slots.simps[of w p i n rb] w2s_def)
    show ?thesis
    proof (cases "io = 0")
      case True
      then show ?thesis by (simp add: unf)
    next
      case io0: False
      have ok1: "heap_ok w1" using m1 ok by (rule heap_ok_malloc)
      have ok2: "heap_ok w2" using m2 ok1 by (rule heap_ok_malloc)
      have ok2s: "heap_ok w2s" by (simp add: w2s_def heap_ok_store ok2)
      from ms have plive: "obj_at w p \<noteq> None" by (auto simp: msgs_at_def split: option.splits)
      then have pb: "0 < p \<and> p < next_addr w" using ok by (auto dest: obj_at_bounds)
      have n1: "next_addr w \<le> next_addr w1" using m1 by (rule next_addr_malloc)
      have io_eq: "io = next_addr w1" using malloc_nonnull[OF m2 io0] by simp
      have o1: "obj_at w1 p = obj_at w p"
        using obj_at_malloc[OF m1 ok, of p] malloc_fresh[OF m1 ok] plive by auto
      have o2: "obj_at w2 q = (if q = io then Some Uninit else obj_at w1 q)" for q
        using obj_at_malloc[OF m2 ok1, of q] io0 by simp
      have "obj_at w2s p = obj_at w p" using pb n1 io_eq by (simp add: w2s_def obj_at_store o2 o1)
      then have ms2s: "msgs_at w2s p = Some ms" using ms by (simp add: msgs_at_def)
      define ms3 where "ms3 = ms[nat i := (ms ! nat i)\<lparr>msg_iov := io, msg_iovlen := 1\<rparr>]"
      define w3 where "w3 = store w2s p (MsgArr ms3)"
      have s3: "store_msg_iov w2s p i io = Done w3"
        unfolding w3_def ms3_def using ms2s pb i0 True nlen by (intro store_msg_iov_ok) auto
      have ok3: "heap_ok w3" by (simp add: w3_def heap_ok_store ok2s)
      have p2s: "obj_at w2s p \<noteq> None" using ms2s by (auto simp: msgs_at_def split: option.splits)
      have ms3at: "msgs_at w3 p = Some ms3" using p2s by (simp add: msgs_at_def w3_def obj_at_store)
      have "init_slots w3 p (i + 1) n rb = Fault NullPointer \<or> (\<exists>w'. init_slots w3 p (i + 1) n rb = Done w')"
        by (rule less.hyps[OF _ ok3 _ ms3at]) (use True i0 nlen in \<open>simp_all add: ms3_def\<close>)
      then show ?thesis using io0 by (simp add: unf s3)
    qed
  qed
qed

section \<open>\<^verbatim>\<open>init\<close> as a whole\<close>

lemma lowest_free_Some:
  "lowest_free fs k n = Some a \<Longrightarrow> map_of fs a = None \<and> n \<le> a \<and> a < n + int k"
proof (induction k arbitrary: n)
  case 0
  then show ?case by simp
next
  case (Suc k)
  show ?case
  proof (cases "map_of fs n = None")
    case True
    with Suc.prems show ?thesis by simp
  next
    case False
    with Suc.prems have "lowest_free fs k (n + 1) = Some a" by simp
    from Suc.IH[OF this] show ?thesis by simp
  qed
qed

lemma heap_ok_same: "heap w' = heap w \<Longrightarrow> next_addr w' = next_addr w \<Longrightarrow> heap_ok w' = heap_ok w"
  by (simp add: heap_ok_def)

lemma alloc_fd_frame:
  "alloc_fd w f = (r, w') \<Longrightarrow>
     heap w' = heap w \<and> next_addr w' = next_addr w \<and> mem_free w' = mem_free w \<and> nofile w' = nofile w"
  by (auto simp: alloc_fd_def failure_def split: option.splits)

lemma alloc_fd_files:
  "alloc_fd w f = (r, w') \<Longrightarrow>
     (case lowest_free (files w) (nofile w) 0 of
        None \<Rightarrow> r = - 1 \<and> files w' = files w
      | Some a \<Rightarrow> r = a \<and> files w' = AList.update a f (files w))"
  by (auto simp: alloc_fd_def failure_def split: option.splits)

lemma sys_epoll_create1_0: "sys_epoll_create1 w 0 = alloc_fd w (EpollFile [] [])"
  by (simp add: sys_epoll_create1_def)

lemma sys_eventfd_nonblock: "sys_eventfd w 0 2048 = alloc_fd w (EventFd True 0)"
  by (simp add: sys_eventfd_def)

lemma sys_epoll_ctl_frame:
  "sys_epoll_ctl w epfd op n evo = (r, w') \<Longrightarrow>
     heap w' = heap w \<and> next_addr w' = next_addr w \<and> mem_free w' = mem_free w \<and> nofile w' = nofile w"
  by (auto simp: sys_epoll_ctl_def failure_def set_interest_def
           split: option.splits if_splits open_file.splits)

lemma fds_ok_neg: "fds_ok w \<Longrightarrow> n < 0 \<Longrightarrow> map_of (files w) n = None"
  by (auto simp: fds_ok_def list_all_iff map_of_eq_None_iff)

lemma with_err_hup_wake: "with_err_hup \<lparr>ev_events = 25, ev_data_u32 = 0\<rparr> = \<lparr>ev_events = 25, ev_data_u32 = 0\<rparr>"
  by (simp add: with_err_hup_def)

lemma init_fds_steps:
  assumes fds: "fds_ok w"
    and c: "alloc_fd w (EpollFile [] []) = (a, w1)"
    and same: "files w3 = files w1" "nofile w3 = nofile w1"
    and e: "alloc_fd w3 (EventFd True 0) = (b, w4)"
    and x: "sys_epoll_ctl w4 a 1 b (Some \<lparr>ev_events = 25, ev_data_u32 = 0\<rparr>) = (r, w5)"
  shows "(a, b, files w5) = init_fds w"
proof (cases "lowest_free (files w) (nofile w) 0")
  case None
  with alloc_fd_files[OF c] have a: "a = - 1" and f1: "files w1 = files w" by simp_all
  from alloc_fd_frame[OF c] have n1: "nofile w1 = nofile w" by simp
  from alloc_fd_files[OF e] None same f1 n1 have b: "b = - 1" and f4: "files w4 = files w" by simp_all
  from fds have "map_of (files w) (- 1) = None" by (simp add: fds_ok_neg)
  with x a f4 have "files w5 = files w" by (auto simp: sys_epoll_ctl_def failure_def)
  with a b None show ?thesis by (simp add: init_fds_def)
next
  case (Some a')
  with alloc_fd_files[OF c] have a: "a = a'" and f1: "files w1 = AList.update a (EpollFile [] []) (files w)"
    by simp_all
  from lowest_free_Some[OF Some] a have a0: "0 \<le> a" by simp
  from alloc_fd_frame[OF c] have n1: "nofile w1 = nofile w" by simp
  show ?thesis
  proof (cases "lowest_free (AList.update a (EpollFile [] []) (files w)) (nofile w) 0")
    case None
    with alloc_fd_files[OF e] same f1 n1 have b: "b = - 1" and f4: "files w4 = files w1" by simp_all
    from fds a0 have "map_of (files w1) (- 1) = None" by (simp add: f1 update_conv' fds_ok_neg)
    moreover have "map_of (files w1) a = Some (EpollFile [] [])" by (simp add: f1 update_conv')
    ultimately have "files w5 = files w1" using x b f4 by (auto simp: sys_epoll_ctl_def failure_def)
    with a b Some None f1 show ?thesis by (simp add: init_fds_def)
  next
    case (Some b')
    with alloc_fd_files[OF e] same f1 n1 have b: "b = b'"
      and f4: "files w4 = AList.update b (EventFd True 0) (files w1)" by simp_all
    from lowest_free_Some[OF Some] b have "map_of (AList.update a (EpollFile [] []) (files w)) b = None" by simp
    then have ne: "b \<noteq> a" by (auto simp: update_conv')
    have la: "map_of (files w4) a = Some (EpollFile [] [])" using ne by (simp add: f4 f1 update_conv')
    have lb: "map_of (files w4) b = Some (EventFd True 0)" by (simp add: f4 update_conv')
    from x la lb ne have "files w5 = AList.update a (EpollFile [(b, \<lparr>ev_events = 25, ev_data_u32 = 0\<rparr>)] []) (files w4)"
      by (auto simp: sys_epoll_ctl_def set_interest_def registered_def with_err_hup_wake)
    with a b Some \<open>lowest_free (files w) (nofile w) 0 = Some a'\<close> f4 f1 show ?thesis
      by (simp add: init_fds_def)
  qed
qed

lemma malloc0_nonnull: "heap_ok w \<Longrightarrow> malloc w 0 ob = (a, w') \<Longrightarrow> a \<noteq> 0"
  by (auto simp: malloc_def heap_ok_def)

lemma wake_mask: "(16 :: 32 word) OR 8 OR 1 = 25"
  by simp

lemma init_unfold:
  assumes "alloc_fd w (EpollFile [] []) = (epfd, w1)"
    and "malloc (printf w1 (Out_epoll_fd epfd)) 48 Uninit = (state, w2)"
    and "malloc w2 (scast me * 12) (EventArr (replicate (unat (scast me * 12 :: 64 word) div 12) None)) = (evp, w3)"
    and "alloc_fd w3 (EventFd True 0) = (efdv, w4)"
    and "sys_epoll_ctl w4 epfd 1 efdv (Some \<lparr>ev_events = 25, ev_data_u32 = 0\<rparr>) = (r, w5)"
    and "malloc w5 (scast md * 64) Uninit = (p, w6)"
  shows "init w me md rb =
     (if state = 0 then Fault NullPointer
      else if p = 0 \<and> (scast md * 64 :: 64 word) \<noteq> 0 then Fault NullPointer
      else obind (init_slots
              (store (store w6 p (MsgArr (replicate (unat (scast md * 64 :: 64 word) div 64) zero_mmsghdr)))
                 state
                 (StateObj \<lparr>fd = epfd, efd = efdv, events = evp, max_events = sint me,
                            efd_event = \<lparr>ev_events = 25, ev_data_u32 = 0\<rparr>,
                            udp_rcv_len = sint md, udp_rcv = p\<rparr>))
              p 0 (sint md) rb)
       (\<lambda>w7. Done (state, w7)))"
  unfolding init_def sys_epoll_create1_0 sys_eventfd_nonblock wake_mask
  by (simp only: assms prod.case)

lemma init_cases:
  assumes ok: "heap_ok w"
  obtains (fault) "init w me md rb = Fault NullPointer"
  | (returns) h w' st ms where
    "init w me md rb = Done (h, w')"
    "h = next_addr w" "heap_ok w'" "state_at w' h = Some st"
    "max_events st = sint me" "udp_rcv_len st = sint md"
    "efd_event st = \<lparr>ev_events = 25, ev_data_u32 = 0\<rparr>"
    "0 \<le> sint md" "msgs_at w' (udp_rcv st) = Some ms" "length ms = nat (sint md)"
    "slots_inv w w' (scast rb) ms 0 (length ms)"
    "\<forall>a. obj_at w a \<noteq> None \<longrightarrow> obj_at w' a = obj_at w a"
    "nofile w' = nofile w" "fds_ok w \<longrightarrow> (fd st, efd st, files w') = init_fds w"
    "events st = 0 \<or> (0 \<le> sint me \<and> obj_at w (events st) = None \<and>
        events_at w' (events st) = Some (replicate (nat (sint me)) None))"
proof -
  obtain epfd w1 where c: "alloc_fd w (EpollFile [] []) = (epfd, w1)" by (cases "alloc_fd w (EpollFile [] [])")
  define wp where "wp = printf w1 (Out_epoll_fd epfd)"
  obtain state w2 where m1: "malloc wp 48 Uninit = (state, w2)" by (cases "malloc wp 48 Uninit")
  let ?esz = "scast me * 12 :: 64 word"
  obtain evp w3 where m2: "malloc w2 ?esz (EventArr (replicate (unat ?esz div 12) None)) = (evp, w3)"
    by (cases "malloc w2 ?esz (EventArr (replicate (unat ?esz div 12) None))")
  obtain efdv w4 where e: "alloc_fd w3 (EventFd True 0) = (efdv, w4)" by (cases "alloc_fd w3 (EventFd True 0)")
  obtain r w5 where x: "sys_epoll_ctl w4 epfd 1 efdv (Some \<lparr>ev_events = 25, ev_data_u32 = 0\<rparr>) = (r, w5)"
    by (cases "sys_epoll_ctl w4 epfd 1 efdv (Some \<lparr>ev_events = 25, ev_data_u32 = 0\<rparr>)")
  let ?msz = "scast md * 64 :: 64 word"
  obtain p w6 where m3: "malloc w5 ?msz Uninit = (p, w6)" by (cases "malloc w5 ?msz Uninit")
  define st where "st = \<lparr>fd = epfd, efd = efdv, events = evp, max_events = sint me,
       efd_event = \<lparr>ev_events = 25, ev_data_u32 = 0\<rparr>, udp_rcv_len = sint md, udp_rcv = p\<rparr>"
  define w8 where "w8 = store w6 p (MsgArr (replicate (unat ?msz div 64) zero_mmsghdr))"
  define w9 where "w9 = store w8 state (StateObj st)"
  note unf = init_unfold[OF c m1[unfolded wp_def] m2 e x m3, of rb, folded st_def w8_def w9_def]
  show thesis
  proof (cases "state = 0 \<or> (p = 0 \<and> ?msz \<noteq> 0)")
    case True
    then have "init w me md rb = Fault NullPointer"
      by (cases "state = 0") (simp_all only: unf simp_thms if_True if_False)
    then show thesis by (rule fault)
  next
    case False
    then have s0: "state \<noteq> 0" by (rule contrapos_nn) (rule disjI1)
    from False have pz: "\<not> (p = 0 \<and> ?msz \<noteq> 0)" by (rule contrapos_nn) (rule disjI2)
    have unf2: "init w me md rb = obind (init_slots w9 p 0 (sint md) rb) (\<lambda>w7. Done (state, w7))"
      using s0 pz by (simp only: unf simp_thms if_False)
  have hp: "heap wp = heap w" "next_addr wp = next_addr w"
    using alloc_fd_frame[OF c] by (simp_all add: wp_def printf_def)
  have okp: "heap_ok wp" using ok heap_ok_same[OF hp] by simp
  have op: "obj_at wp q = obj_at w q" for q using hp(1) by (rule obj_at_heap_same)
  have ok2: "heap_ok w2" using m1 okp by (rule heap_ok_malloc)
  have o2: "obj_at w2 q = (if q = state then Some Uninit else obj_at w q)" for q
    using obj_at_malloc[OF m1 okp, of q] s0 by (simp add: op)
  have st_addr: "state = next_addr w" "next_addr w2 = state + 1"
    using malloc_nonnull[OF m1 s0] hp by simp_all
  have ok3: "heap_ok w3" using m2 ok2 by (rule heap_ok_malloc)
  have o3: "obj_at w3 q = (if evp \<noteq> 0 \<and> q = evp then Some (EventArr (replicate (unat ?esz div 12) None))
                           else obj_at w2 q)" for q
    using m2 ok2 by (rule obj_at_malloc)
  have h4: "heap w4 = heap w3" "next_addr w4 = next_addr w3" using alloc_fd_frame[OF e] by simp_all
  have h5: "heap w5 = heap w3" "next_addr w5 = next_addr w3" using sys_epoll_ctl_frame[OF x] h4 by simp_all
  have ok5: "heap_ok w5" using ok3 heap_ok_same[OF h5] by simp
  have o5: "obj_at w5 q = obj_at w3 q" for q using h5(1) by (rule obj_at_heap_same)
  have p0: "p \<noteq> 0"
  proof
    assume "p = 0"
    with pz have "?msz = 0" by simp
    with m3 ok5 have "p \<noteq> 0" by (auto dest: malloc0_nonnull)
    with \<open>p = 0\<close> show False by simp
  qed
  have ok6: "heap_ok w6" using m3 ok5 by (rule heap_ok_malloc)
  have o6: "obj_at w6 q = (if q = p then Some Uninit else obj_at w3 q)" for q
    using obj_at_malloc[OF m3 ok5, of q] p0 by (simp add: o5)
  from malloc_nonnull[OF m3 p0] have pmax: "unat ?msz \<le> 9223372036854775807" and p_addr: "p = next_addr w5" by simp_all
  have md0: "0 \<le> sint md"
  proof (rule ccontr)
    assume "\<not> 0 \<le> sint md"
    then have "9223372036854775807 < unat ?msz" by (simp add: unat_size_neg)
    with pmax show False by simp
  qed
  then have msz: "unat ?msz div 64 = nat (sint md)" by (simp add: unat_size_nonneg)
  have n23: "next_addr w2 \<le> next_addr w3" using m2 by (rule next_addr_malloc)
  have sp: "state < p" using st_addr n23 p_addr h5 by simp
  have o8: "obj_at w8 q = (if q = p then Some (MsgArr (replicate (nat (sint md)) zero_mmsghdr)) else obj_at w3 q)" for q
    by (simp add: w8_def obj_at_store o6 msz)
  have state3: "obj_at w3 state = Some Uninit"
  proof -
    have "evp \<noteq> 0 \<Longrightarrow> evp \<noteq> state"
      using malloc_fresh[OF m2 ok2] by (auto simp: o2)
    then show ?thesis by (auto simp: o3 o2)
  qed
  have o9: "obj_at w9 q = (if q = state then Some (StateObj st) else obj_at w8 q)" for q
    using sp state3 by (simp add: w9_def obj_at_store o8)
  have ok9: "heap_ok w9" using ok6 by (simp add: w9_def w8_def heap_ok_store)
  have ms9: "msgs_at w9 p = Some (replicate (nat (sint md)) zero_mmsghdr)"
    using sp by (simp add: msgs_at_def o9 o8)
  have n9: "next_addr w \<le> next_addr w9"
    using next_addr_malloc[OF m3] st_addr n23 h5 by (simp add: w9_def w8_def store_frame)
  have "init_slots w9 p 0 (sint md) rb = Fault NullPointer \<or> (\<exists>w'. init_slots w9 p 0 (sint md) rb = Done w')"
    using ok9 _ ms9 by (rule init_slots_outcome) (use md0 in simp_all)
  then consider "init_slots w9 p 0 (sint md) rb = Fault NullPointer"
    | w' where "init_slots w9 p 0 (sint md) rb = Done w'" by blast
  then show thesis
  proof cases
    case 1
    then have "init w me md rb = Fault NullPointer" by (simp add: unf2)
    then show thesis by (rule fault)
  next
    case (2 w')
    note loop = 2
    define h where "h = state"
    have run: "init w me md rb = Done (h, w')" by (simp add: unf2 loop h_def)
    have h: "h = state" by (rule h_def)
  from init_slots_inv[OF loop ok9 _ ms9]
  obtain ms where okw': "heap_ok w'" and fw': "files w' = files w9" and nfw': "nofile w' = nofile w9"
    and nw': "next_addr w9 \<le> next_addr w'"
    and frame9: "\<forall>a. obj_at w9 a \<noteq> None \<longrightarrow> a \<noteq> p \<longrightarrow> obj_at w' a = obj_at w9 a"
    and ms: "msgs_at w' p = Some ms" and len: "length ms = nat (sint md)"
    and inv9: "slots_inv w9 w' (scast rb) ms 0 (nat (sint md))"
    by auto
  have inv: "slots_inv w w' (scast rb) ms 0 (length ms)"
    using inv9 n9 unfolding slots_inv_def len by (meson order_trans)
  have st': "state_at w' state = Some st"
  proof -
    have "obj_at w9 state = Some (StateObj st)" by (simp add: o9)
    with frame9 sp have "obj_at w' state = Some (StateObj st)" by simp
    then show ?thesis by (simp add: state_at_def)
  qed
  have frame: "\<forall>a. obj_at w a \<noteq> None \<longrightarrow> obj_at w' a = obj_at w a"
  proof (intro allI impI)
    fix a assume live: "obj_at w a \<noteq> None"
    with ok have "a < next_addr w" by (auto dest: obj_at_bounds)
    with st_addr sp have ne: "a \<noteq> state" "a \<noteq> p" by simp_all
    have "evp \<noteq> 0 \<Longrightarrow> a \<noteq> evp" using malloc_fresh[OF m2 ok2] live ne by (auto simp: o2)
    then have "obj_at w9 a = obj_at w a" using ne by (auto simp: o9 o8 o3 o2)
    with frame9 live ne show "obj_at w' a = obj_at w a" by simp
  qed
  have files9: "files w9 = files w5" "nofile w9 = nofile w5"
    using malloc_frame[OF m3] by (simp_all add: w9_def w8_def store_frame)
  have f31: "files w3 = files w1" "nofile w3 = nofile w1"
    using malloc_frame[OF m1] malloc_frame[OF m2] by (simp_all add: wp_def printf_def)
  have fdsq: "fds_ok w \<longrightarrow> (epfd, efdv, files w5) = init_fds w" using c f31 e x by (auto intro: init_fds_steps)
  have nof: "nofile w' = nofile w"
    using nfw' files9 sys_epoll_ctl_frame[OF x] alloc_fd_frame[OF e] f31 alloc_fd_frame[OF c] by simp
  have ev: "events st = 0 \<or> (0 \<le> sint me \<and> obj_at w (events st) = None \<and>
        events_at w' (events st) = Some (replicate (nat (sint me)) None))"
  proof (cases "evp = 0")
    case True
    then show ?thesis by (simp add: st_def)
  next
    case False
    from malloc_nonnull[OF m2 False] have emax: "unat ?esz \<le> 9223372036854775807" and e_addr: "evp = next_addr w2" by simp_all
    have me0: "0 \<le> sint me"
    proof (rule ccontr)
      assume "\<not> 0 \<le> sint me"
      then have "9223372036854775807 < unat ?esz" by (simp add: unat_size_neg)
      with emax show False by simp
    qed
    then have esz: "unat ?esz div 12 = nat (sint me)" by (simp add: unat_size_nonneg)
    have ne: "evp \<noteq> state" "evp \<noteq> p" using e_addr st_addr p_addr h5 n23 next_addr_malloc[OF m2]
      malloc_nonnull[OF m2 False] by simp_all
    have "obj_at w9 evp = Some (EventArr (replicate (nat (sint me)) None))"
      using ne False by (simp add: o9 o8 o3 esz)
    with frame9 ne have "obj_at w' evp = Some (EventArr (replicate (nat (sint me)) None))" by simp
    then have "events_at w' evp = Some (replicate (nat (sint me)) None)" by (simp add: events_at_def)
    moreover have "obj_at w evp = None" using ok e_addr st_addr by (simp add: obj_at_fresh)
    ultimately show ?thesis using me0 by (simp add: st_def)
  qed
  show thesis
  proof (rule returns[of h w' st ms])
    show "init w me md rb = Done (h, w')" by (rule run)
    show "h = next_addr w" using h st_addr by simp
    show "heap_ok w'" by (rule okw')
    show "state_at w' h = Some st" using st' h by simp
    show "max_events st = sint me" "udp_rcv_len st = sint md"
      "efd_event st = \<lparr>ev_events = 25, ev_data_u32 = 0\<rparr>" by (simp_all add: st_def)
    show "0 \<le> sint md" by (rule md0)
    show "msgs_at w' (udp_rcv st) = Some ms" using ms by (simp add: st_def)
    show "length ms = nat (sint md)" by (rule len)
    show "slots_inv w w' (scast rb) ms 0 (length ms)" by (rule inv)
    show "\<forall>a. obj_at w a \<noteq> None \<longrightarrow> obj_at w' a = obj_at w a" by (rule frame)
    show "nofile w' = nofile w" by (rule nof)
    show "fds_ok w \<longrightarrow> (fd st, efd st, files w') = init_fds w" using fdsq fw' files9 by (simp add: st_def)
    show "events st = 0 \<or> (0 \<le> sint me \<and> obj_at w (events st) = None \<and>
        events_at w' (events st) = Some (replicate (nat (sint me)) None))" by (rule ev)
  qed
  qed
  qed
qed







lemma created_ok: "heap_ok created" "fds_ok created"
  by (simp_all add: heap_ok_def fds_ok_def created_eq)

section \<open>Waiting, signalling and clearing\<close>







lemma harvest_rest: "set (snd (harvest fs l k q)) \<subseteq> set q"
proof (induction q arbitrary: k)
  case Nil
  show ?case by simp
next
  case (Cons n q)
  show ?case
  proof (cases "report fs l n")
    case None
    with Cons.IH[of k] show ?thesis by auto
  next
    case (Some ev)
    with Cons.IH[of "k - 1"] show ?thesis by (auto split: prod.splits)
  qed
qed

















lemma rel_evolves_epoll:
  "rel_option (evolves n) (Some (EpollFile l q)) y \<Longrightarrow> \<exists>q'. y = Some (EpollFile l q') \<and> set q' \<subseteq> insert n (set q)"
  by (cases y) (auto split: open_file.splits)








text \<open>
  Examples of the order of reports: with two descriptors ready and room for one
  event, successive calls report them in turn; an edge-triggered descriptor is
  reported once.
\<close>

lemma select_round_robin_example:
  "obind (select busy 10 0) (\<lambda>r1. obind (select (snd r1) 10 0) (\<lambda>r2. obind (select (snd r2) 10 0)
     (\<lambda>r3. Done (fst r1, events_at (snd r1) 11, fst r2, events_at (snd r2) 11,
                  fst r3, events_at (snd r3) 11)))) =
   Done (1, Some [Some \<lparr>ev_events = 1, ev_data_u32 = 7\<rparr>],
         1, Some [Some \<lparr>ev_events = 1, ev_data_u32 = 0\<rparr>],
         1, Some [Some \<lparr>ev_events = 1, ev_data_u32 = 7\<rparr>])"
  by (simp add: select_def events_at_def obj_at_def busy_eq created1_eq run)

lemma select_edge_triggered_example:
  "obind (select edge 10 0) (\<lambda>r1. obind (select (snd r1) 10 0)
     (\<lambda>r2. Done (fst r1, events_at (snd r1) 11, fst r2, select (snd r2) 10 (- 1)))) =
   Done (1, Some [Some \<lparr>ev_events = 1, ev_data_u32 = 7\<rparr>, None, None, None], 0, Blocks)"
  by (simp add: select_def events_at_def obj_at_def edge_eq created_eq run)

section \<open>Facts about \<^verbatim>\<open>ctl\<close>\<close>

lemma sys_epoll_ctl_unopened:
  "map_of (files w) n = None \<Longrightarrow> sys_epoll_ctl w epfd op n (Some ev) = failure w EBADF"
  by (simp add: sys_epoll_ctl_def split: option.splits)

lemma sys_epoll_ctl_errno:
  "sys_epoll_ctl w epfd op n evo = (r, w') \<Longrightarrow>
     (r = 0 \<and> errno w' = errno w) \<or> (r = - 1 \<and> files w' = files w \<and> errno w' \<noteq> None)"
  by (auto simp: sys_epoll_ctl_def failure_def set_interest_def
           split: option.splits if_splits open_file.splits)

lemma sys_epoll_ctl_interest:
  assumes l: "map_of (files w) epfd = Some (EpollFile l q)"
    and run: "sys_epoll_ctl w epfd op n (Some ev) = (r, w')"
  shows "(\<forall>k. k \<noteq> epfd \<longrightarrow> map_of (files w') k = map_of (files w) k) \<and>
         (\<exists>l' q'. map_of (files w') epfd = Some (EpollFile l' q') \<and>
               (l' = l \<or> (l' = l @ [(n, with_err_hup ev)] \<and> map_of l n = None) \<or>
                l' = AList.update n (with_err_hup ev) l \<or> l' = AList.delete n l))"
  using assms
  by (auto simp: sys_epoll_ctl_def failure_def set_interest_def registered_def update_conv'
           split: option.splits if_splits)

lemma list_all_alist_update:
  "list_all P l \<Longrightarrow> P (k, v) \<Longrightarrow> list_all P (AList.update k v l)"
  by (induction l) auto

lemma list_all_alist_delete: "list_all P l \<Longrightarrow> list_all P (AList.delete k l)"
  by (induction l) auto

lemma interest_reserved:
  assumes e: "map_of l e = Some wk" and d: "distinct (map fst l)"
    and tags: "list_all (\<lambda>x. fst x = e \<or> ev_data_u32 (snd x) \<noteq> 0) l"
    and n: "n \<noteq> e" and v: "ev_data_u32 v \<noteq> 0"
    and l': "l' = l \<or> (l' = l @ [(n, v)] \<and> map_of l n = None) \<or>
             l' = AList.update n v l \<or> l' = AList.delete n l"
  shows "map_of l' e = Some wk \<and> distinct (map fst l') \<and>
         list_all (\<lambda>x. fst x = e \<or> ev_data_u32 (snd x) \<noteq> 0) l'"
proof -
  consider (same) "l' = l" | (add) "l' = l @ [(n, v)]" "map_of l n = None"
    | (upd) "l' = AList.update n v l" | (del) "l' = AList.delete n l"
    using l' by auto
  then show ?thesis
  proof cases
    case same
    with e d tags show ?thesis by simp
  next
    case add
    from add(2) have "n \<notin> fst ` set l" by (simp add: map_of_eq_None_iff)
    with add(1) e d tags v show ?thesis by simp
  next
    case upd
    from e n have "map_of (AList.update n v l) e = Some wk" by (simp add: update_conv')
    moreover from d have "distinct (map fst (AList.update n v l))" by (rule distinct_update)
    moreover from tags v have "list_all (\<lambda>x. fst x = e \<or> ev_data_u32 (snd x) \<noteq> 0) (AList.update n v l)"
      by (intro list_all_alist_update) simp_all
    ultimately show ?thesis using upd by simp
  next
    case del
    from e n have "map_of (AList.delete n l) e = Some wk" by (simp add: delete_conv')
    moreover from d have "distinct (map fst (AList.delete n l))" by (rule distinct_delete)
    moreover from tags have "list_all (\<lambda>x. fst x = e \<or> ev_data_u32 (snd x) \<noteq> 0) (AList.delete n l)"
      by (rule list_all_alist_delete)
    ultimately show ?thesis using del by simp
  qed
qed

lemma state_at_obj_at: "state_at w h = Some st \<longleftrightarrow> obj_at w h = Some (StateObj st)"
  by (simp add: state_at_def split: option.splits obj.splits)

lemma ctl_cases:
  assumes ok: "heap_ok w" and run: "ctl w h op evs sock idx = Done (r, w')"
  obtains w1 st res where "malloc w 12 Uninit = (r, w1)" "r \<noteq> 0" "h \<noteq> 0" "h \<noteq> r"
    "state_at w h = Some st"
    "sys_epoll_ctl (store w1 r (EventObj \<lparr>ev_events = evs, ev_data_u32 = idx\<rparr>)) (fd st) (sint op)
       (sint sock) (Some \<lparr>ev_events = evs, ev_data_u32 = idx\<rparr>) = (res, w')"
proof -
  let ?ev = "\<lparr>ev_events = evs, ev_data_u32 = idx\<rparr>"
  obtain a w1 where m: "malloc w 12 Uninit = (a, w1)" by (cases "malloc w 12 Uninit")
  from run m have a0: "a \<noteq> 0" by (auto simp: ctl_def split: if_splits)
  from run m a0 obtain st where ld: "load_state (store w1 a (EventObj ?ev)) h = Done st"
    and fin: "(case sys_epoll_ctl (store w1 a (EventObj ?ev)) (fd st) (sint op) (sint sock) (Some ?ev) of
                (result, w2) \<Rightarrow> Done (a, w2)) = Done (r, w')"
    by (cases "load_state (store w1 a (EventObj ?ev)) h") (simp_all add: ctl_def)
  obtain res w2 where c: "sys_epoll_ctl (store w1 a (EventObj ?ev)) (fd st) (sint op) (sint sock) (Some ?ev) = (res, w2)"
    by (cases "sys_epoll_ctl (store w1 a (EventObj ?ev)) (fd st) (sint op) (sint sock) (Some ?ev)")
  from fin c have ar: "a = r" "w2 = w'" by simp_all
  from ld have h0: "h \<noteq> 0" and s2: "obj_at (store w1 a (EventObj ?ev)) h = Some (StateObj st)"
    by (simp_all add: load_state_iff state_at_obj_at)
  have new: "obj_at w1 a = Some Uninit" using obj_at_malloc[OF m ok, of a] a0 by simp
  from s2 new have ha: "h \<noteq> a" by (auto simp: obj_at_store)
  with s2 have "obj_at w1 h = Some (StateObj st)" by (simp add: obj_at_store)
  with ha have "obj_at w h = Some (StateObj st)" using obj_at_malloc[OF m ok, of h] by simp
  then have st: "state_at w h = Some st" by (simp add: state_at_obj_at)
  from m a0 h0 ha st c ar show thesis by (intro that[of w1 st res]) simp_all
qed

lemma ctl_runs:
  assumes ok: "heap_ok w" and m: "malloc w 12 Uninit = (r, w1)" "r \<noteq> 0"
    and st: "state_at w h = Some st" "h \<noteq> 0"
  shows "ctl w h op evs sock idx =
           Done (r, snd (sys_epoll_ctl (store w1 r (EventObj \<lparr>ev_events = evs, ev_data_u32 = idx\<rparr>))
                          (fd st) (sint op) (sint sock) (Some \<lparr>ev_events = evs, ev_data_u32 = idx\<rparr>)))"
proof -
  let ?ev = "\<lparr>ev_events = evs, ev_data_u32 = idx\<rparr>"
  from malloc_fresh[OF m(1) ok m(2)] st(1) have hr: "h \<noteq> r" by (auto simp: state_at_obj_at)
  from st(1) hr have "obj_at w1 h = Some (StateObj st)"
    using obj_at_malloc[OF m(1) ok, of h] by (simp add: state_at_obj_at)
  with hr have "state_at (store w1 r (EventObj ?ev)) h = Some st"
    by (simp add: state_at_obj_at obj_at_store)
  with st(2) have ld: "load_state (store w1 r (EventObj ?ev)) h = Done st" by (simp add: load_state_iff)
  show ?thesis by (simp add: ctl_def m ld split: prod.splits)
qed

lemma wake_reserved_interest:
  "map_of (files w) (fd st) = Some (EpollFile l q) \<Longrightarrow> map_of (files w') (fd st) = Some (EpollFile l q') \<Longrightarrow>
     wake_reserved w' st = wake_reserved w st"
  by (simp add: wake_reserved_def)

lemma wake_reserved_evolves:
  assumes wr: "wake_reserved w st"
    and ev: "rel_option (evolves e) (map_of (files w) (fd st)) (map_of (files w') (fd st))"
  shows "wake_reserved w' st"
proof -
  from wr obtain l q where l: "map_of (files w) (fd st) = Some (EpollFile l q)"
    by (auto simp: wake_reserved_def split: option.splits open_file.splits)
  with ev obtain q' where "map_of (files w') (fd st) = Some (EpollFile l q')"
    using rel_evolves_epoll[of e l q "map_of (files w') (fd st)"] by auto
  with l wr show ?thesis by (simp add: wake_reserved_def)
qed

lemma wake_fds_differ: "wake_ok w st \<Longrightarrow> wake_reserved w st \<Longrightarrow> fd st \<noteq> efd st"
  by (auto simp: wake_ok_def wake_reserved_def split: option.splits open_file.splits)

section \<open>Teardown\<close>

text \<open>
  C1. The claim: \<^verbatim>\<open>freeNativeMemory\<close> frees the buffer and the \<^verbatim>\<open>iovec\<close> of every
  one of the \<open>maxDatagrams\<close> slots, so that nothing \<^verbatim>\<open>init\<close> allocated stays live.
  The code frees those of slot 0 only. After \<^verbatim>\<open>init(4, 2, 8)\<close> in a fresh process
  and \<^verbatim>\<open>freeNativeMemory\<close> on the handle, both descriptors are closed, but the
  buffer (block 15) and the \<^verbatim>\<open>iovec\<close> (block 16) of slot 1 are still allocated.
\<close>

theorem freeNativeMemory_leaks_slot_1:
  "obind (init boot 4 2 8) (\<lambda>(h, w). obind (freeNativeMemory w h)
     (\<lambda>w'. Done (live_blocks boot, live_blocks w', open_fds w'))) = Done ([], [15, 16], [0, 1, 2])"
  unfolding init_boot by (simp add: created_eq boot_def freeNativeMemory_def run)

section \<open>Creation\<close>

text \<open>
  C3. The claim: when an allocation or the creation of a handle fails, \<^verbatim>\<open>init\<close>
  reports the failure to its caller and first releases what it had acquired. The
  code checks no result. In a process with no free descriptor \<^verbatim>\<open>epoll_create1\<close>
  and \<^verbatim>\<open>eventfd\<close> fail, and \<^verbatim>\<open>init(4, 2, 8)\<close> still returns the handle 10 as on
  success: the state block records \<open>-1\<close> for the interest handle, the last error is
  the \<^verbatim>\<open>EBADF\<close> of the ignored \<^verbatim>\<open>epoll_ctl\<close>, and all seven blocks stay allocated.
\<close>

theorem init_failed_handle_counterexample:
  "obind (init (boot\<lparr>nofile := 3\<rparr>) 4 2 8)
     (\<lambda>(h, w). Done (h, map_option fd (state_at w h), errno w, live_blocks w)) =
   Done (10, Some (- 1), Some EBADF, [10, 11, 12, 13, 14, 15, 16])"
  by (simp add: init_def boot_def state_at_def obj_at_def run)

text \<open>
  C3, as amended. \<^verbatim>\<open>init\<close> has no failure result: it faults on a null pointer it
  dereferences itself (the state block, the slot array or an \<^verbatim>\<open>iovec\<close> could not be
  allocated), or it returns the handle of a new state block. When it returns, the
  descriptors recorded and the descriptor table are those of \<open>init_fds\<close> (with no
  descriptor free: \<open>-1\<close> twice and the table unchanged), every block that was live
  before is unchanged, and everything the call allocated is still allocated: the
  state block, the event array unless its pointer is null, the slot array and every
  slot's \<^verbatim>\<open>iovec\<close> and buffer.
\<close>

theorem init_reports_no_failure:
  assumes ok: "heap_ok w" and fds: "fds_ok w"
  shows "init w me md rb = Fault NullPointer \<or>
    (\<exists>h w' st ms. init w me md rb = Done (h, w') \<and> h \<noteq> 0 \<and> obj_at w h = None \<and>
       state_at w' h = Some st \<and> (fd st, efd st, files w') = init_fds w \<and>
       (lowest_free (files w) (nofile w) 0 = None \<longrightarrow> fd st = - 1 \<and> efd st = - 1 \<and> files w' = files w) \<and>
       (\<forall>a. obj_at w a \<noteq> None \<longrightarrow> obj_at w' a = obj_at w a) \<and>
       (events st = 0 \<or> events_at w' (events st) \<noteq> None) \<and>
       msgs_at w' (udp_rcv st) = Some ms \<and> length ms = nat (sint md) \<and>
       (\<forall>j<length ms. slot_ok w' (scast rb) (ms ! j)))"
  using ok
proof (cases rule: init_cases[of w me md rb])
  case fault
  then show ?thesis by simp
next
  case (returns h w' st ms)
  from ok have "0 < next_addr w" by (simp add: heap_ok_def)
  with returns(2) obj_at_fresh[OF ok, of h] have h: "h \<noteq> 0" "obj_at w h = None" by simp_all
  from returns(14) fds have f: "(fd st, efd st, files w') = init_fds w" by simp
  then have nofd: "lowest_free (files w) (nofile w) 0 = None \<longrightarrow> fd st = - 1 \<and> efd st = - 1 \<and> files w' = files w"
    by (auto simp: init_fds_def)
  from returns(15) have ev: "events st = 0 \<or> events_at w' (events st) \<noteq> None" by auto
  from returns(11) have slots: "\<forall>j<length ms. slot_ok w' (scast rb) (ms ! j)"
    by (simp add: slots_inv_def)
  have "\<exists>h w' st ms. init w me md rb = Done (h, w') \<and> h \<noteq> 0 \<and> obj_at w h = None \<and>
       state_at w' h = Some st \<and> (fd st, efd st, files w') = init_fds w \<and>
       (lowest_free (files w) (nofile w) 0 = None \<longrightarrow> fd st = - 1 \<and> efd st = - 1 \<and> files w' = files w) \<and>
       (\<forall>a. obj_at w a \<noteq> None \<longrightarrow> obj_at w' a = obj_at w a) \<and>
       (events st = 0 \<or> events_at w' (events st) \<noteq> None) \<and>
       msgs_at w' (udp_rcv st) = Some ms \<and> length ms = nat (sint md) \<and>
       (\<forall>j<length ms. slot_ok w' (scast rb) (ms ! j))"
    apply (rule exI[of _ h], rule exI[of _ w'], rule exI[of _ st], rule exI[of _ ms])
    using returns(1) h returns(4) f nofd returns(12) ev returns(9) returns(10) slots
    apply (intro conjI)
              apply assumption+
    done
  then show ?thesis by (rule disjI2)
qed

theorem init_reports_no_failure_witness:
  "heap_ok (boot\<lparr>nofile := 3\<rparr>) \<and> fds_ok (boot\<lparr>nofile := 3\<rparr>) \<and>
   lowest_free (files (boot\<lparr>nofile := 3\<rparr>)) (nofile (boot\<lparr>nofile := 3\<rparr>)) 0 = None \<and>
   (\<exists>h w' st. init (boot\<lparr>nofile := 3\<rparr>) 4 2 8 = Done (h, w') \<and> h \<noteq> 0 \<and>
      state_at w' h = Some st \<and> fd st = - 1 \<and> efd st = - 1 \<and> files w' = files (boot\<lparr>nofile := 3\<rparr>))"
proof -
  have a: "heap_ok (boot\<lparr>nofile := 3\<rparr>)" "fds_ok (boot\<lparr>nofile := 3\<rparr>)"
    by (simp_all add: heap_ok_def fds_ok_def boot_def)
  have b: "lowest_free (files (boot\<lparr>nofile := 3\<rparr>)) (nofile (boot\<lparr>nofile := 3\<rparr>)) 0 = None"
    by (simp add: boot_def lowest_free_numeral)
  have c: "init (boot\<lparr>nofile := 3\<rparr>) 4 2 8 \<noteq> Fault NullPointer"
    by (simp add: init_def boot_def run)
  from init_reports_no_failure[OF a, of 4 2 8] c
  obtain h w' st where "init (boot\<lparr>nofile := 3\<rparr>) 4 2 8 = Done (h, w')" "h \<noteq> 0"
    "state_at w' h = Some st"
    "lowest_free (files (boot\<lparr>nofile := 3\<rparr>)) (nofile (boot\<lparr>nofile := 3\<rparr>)) 0 = None \<longrightarrow>
       fd st = - 1 \<and> efd st = - 1 \<and> files w' = files (boot\<lparr>nofile := 3\<rparr>)"
    by auto
  with a b show ?thesis by auto
qed



section \<open>Waiting and the wake channel\<close>

text \<open>
  C4. The claim: every call of \<^verbatim>\<open>interrupt\<close> records a pending wake-up, after which
  a wait returns with the reserved tag instead of blocking. The code writes the
  local \<^verbatim>\<open>uint64_t d\<close> to the eventfd without initialising it. When the stack slot
  holds 0 the write adds nothing to the counter: the wake descriptor is linked to
  the ready list but its counter is still 0, so it polls not ready; a following
  \<^verbatim>\<open>select\<close> with timeout 0 reports no event and leaves the state \<^verbatim>\<open>init\<close> left, and one
  with timeout \<open>-1\<close> never returns, exactly as without the call. When the slot holds
  \<^verbatim>\<open>0xffffffffffffffff\<close> the write fails with \<^verbatim>\<open>EINVAL\<close> and nothing changes but \<^verbatim>\<open>errno\<close>.
\<close>

theorem interrupt_uninitialised_value_records_nothing:
  "interrupt created 10 0 =
     Done (created\<lparr>files := [(0, RegularFile), (1, RegularFile), (2, RegularFile),
                              (3, EpollFile [(4, \<lparr>ev_events = 25, ev_data_u32 = 0\<rparr>)] [4]),
                              (4, EventFd True 0)]\<rparr>) \<and>
   obind (interrupt created 10 0) (\<lambda>w. select w 10 0) = Done (0, created) \<and>
   obind (interrupt created 10 0) (\<lambda>w. select w 10 (- 1)) = Blocks \<and>
   select created 10 0 = Done (0, created) \<and>
   select created 10 (- 1) = Blocks \<and>
   interrupt created 10 18446744073709551615 = Done (created\<lparr>errno := Some EINVAL\<rparr>)"
  by (simp add: interrupt_def select_def created_eq run)







end
